theory Spec2Isabelle
  imports Main
begin

unbundle bit_operations_syntax

section \<open>Python values\<close>

text \<open>
  A Python \<open>str\<close> is a sequence of Unicode code points; it is modelled as a list of
  natural numbers. An argument that may be \<open>None\<close> is an option. Byte strings are lists
  of numbers below 256. Identifiers the program prints or stores as keys (hex digests,
  log lines) are ASCII and are modelled as \<open>string\<close>.
\<close>

type_synonym ustr = "nat list"

definition ustr_of :: "string \<Rightarrow> ustr" where
  "ustr_of s = map of_char s"

text \<open>Python truthiness of an optional string: \<open>None\<close> and \<open>''\<close> are false.\<close>

definition truthy :: "'a list option \<Rightarrow> bool" where
  "truthy v = (case v of None \<Rightarrow> False | Some s \<Rightarrow> s \<noteq> [])"

text \<open>\<open>str(value)\<close>: the identity on a string, the text \<open>None\<close> on \<open>None\<close>.\<close>

definition py_str :: "ustr option \<Rightarrow> ustr" where
  "py_str v = (case v of None \<Rightarrow> ustr_of ''None'' | Some s \<Rightarrow> s)"

text \<open>\<open>sep.join(parts)\<close>\<close>

fun py_join :: "'a list \<Rightarrow> 'a list list \<Rightarrow> 'a list" where
  "py_join sep [] = []"
| "py_join sep [x] = x"
| "py_join sep (x # y # ys) = x @ sep @ py_join sep (y # ys)"

text \<open>
  The exceptions the two modules raise or catch. \<open>UnicodeEncodeError\<close> is what
  \<open>str.encode\<close> raises; the others carry their message (\<open>AlreadyExistsError\<close> its
  \<open>eid\<close>).
\<close>

datatype error =
    ValueError string
  | UnicodeEncodeError
  | InvalidValueError string
  | AlreadyExistsError string
  | NotFoundError string
  | LoadError string

text \<open>\<open>str(e)\<close> of an exception\<close>

fun str_of_error :: "error \<Rightarrow> string" where
  "str_of_error (ValueError m) = m"
| "str_of_error UnicodeEncodeError = ''surrogates not allowed''"
| "str_of_error (InvalidValueError m) = m"
| "str_of_error (AlreadyExistsError eid) = eid"
| "str_of_error (NotFoundError m) = m"
| "str_of_error (LoadError m) = m"

text \<open>
  \<open>isinstance(e, ValueError)\<close>, which is what \<open>except ValueError\<close> tests. The standard
  library derives \<open>UnicodeEncodeError\<close> from \<open>UnicodeError\<close>, and that from \<open>ValueError\<close>;
  the importer catches each of the other exceptions under a name of its own.
\<close>

definition is_ValueError :: "error \<Rightarrow> bool" where
  "is_ValueError e =
     (case e of ValueError m \<Rightarrow> True | UnicodeEncodeError \<Rightarrow> True | _ \<Rightarrow> False)"

section \<open>The standard library functions \<open>generate_uuid\<close> calls\<close>

subsection \<open>The Unicode character database\<close>

text \<open>
  \<open>unicodedata.normalize('NFD', s)\<close>, \<open>unicodedata.category(c) = 'Mn'\<close> and the case
  tables \<open>str.lower\<close> reads are data of the Python runtime. They are parameters of the
  model, collected in one record.
\<close>

record ucd =
  nfd :: "ustr \<Rightarrow> ustr"
  category_Mn :: "nat \<Rightarrow> bool"
  to_lower_full :: "nat \<Rightarrow> ustr"
  is_cased :: "nat \<Rightarrow> bool"
  is_case_ignorable :: "nat \<Rightarrow> bool"

text \<open>
  \<open>str.lower\<close> as CPython computes it: every code point is replaced by its full lower
  case mapping, but for U+03A3 (capital sigma), which becomes U+03C2 (final sigma) when
  the nearest code point before it that is not case-ignorable is cased and the nearest
  one after it that is not case-ignorable is not cased (or there is none), and U+03C3
  otherwise. \<open>next_cased\<close> looks for that nearest code point; \<open>lower_from\<close> carries the
  code points already passed, nearest first.
\<close>

fun next_cased :: "ucd \<Rightarrow> ustr \<Rightarrow> bool" where
  "next_cased U [] = False"
| "next_cased U (c # cs) = (if is_case_ignorable U c then next_cased U cs else is_cased U c)"

fun lower_from :: "ucd \<Rightarrow> ustr \<Rightarrow> ustr \<Rightarrow> ustr" where
  "lower_from U before [] = []"
| "lower_from U before (c # cs) =
     (if c = 0x3A3
      then [if next_cased U before \<and> \<not> next_cased U cs then 0x3C2 else 0x3C3]
      else to_lower_full U c) @ lower_from U (c # before) cs"

definition py_lower :: "ucd \<Rightarrow> ustr \<Rightarrow> ustr" where
  "py_lower U s = lower_from U [] s"

subsection \<open>UTF-8 with the \<open>surrogateescape\<close> handler\<close>

text \<open>
  \<open>s.encode('UTF-8', errors="surrogateescape")\<close>: a surrogate U+DC80..U+DCFF becomes the
  single byte 0x80..0xFF it stands for; any other surrogate raises
  \<open>UnicodeEncodeError\<close> (the result \<open>None\<close>).
\<close>

definition utf8_bytes :: "nat \<Rightarrow> nat list" where
  "utf8_bytes c =
     (if c < 0x80 then [c]
      else if c < 0x800 then [0xC0 + c div 64, 0x80 + c mod 64]
      else if c < 0x10000
        then [0xE0 + c div 4096, 0x80 + c div 64 mod 64, 0x80 + c mod 64]
      else [0xF0 + c div 262144, 0x80 + c div 4096 mod 64,
            0x80 + c div 64 mod 64, 0x80 + c mod 64])"

definition is_surrogate :: "nat \<Rightarrow> bool" where
  "is_surrogate c = (0xD800 \<le> c \<and> c < 0xE000)"

definition utf8_char :: "nat \<Rightarrow> nat list option" where
  "utf8_char c =
     (if is_surrogate c
      then (if 0xDC80 \<le> c \<and> c \<le> 0xDCFF then Some [c - 0xDC00] else None)
      else Some (utf8_bytes c))"

fun encode_utf8 :: "ustr \<Rightarrow> nat list option" where
  "encode_utf8 [] = Some []"
| "encode_utf8 (c # cs) =
     (case utf8_char c of
        None \<Rightarrow> None
      | Some bs \<Rightarrow> (case encode_utf8 cs of None \<Rightarrow> None | Some r \<Rightarrow> Some (bs @ r)))"

subsection \<open>SHA-1\<close>

text \<open>
  \<open>hashlib.sha1(s).hexdigest()\<close>, after FIPS 180-4. A 32-bit word is a natural number
  below \<open>2 ^ 32\<close>; addition wraps around by \<open>mod\<close>.
\<close>

definition add32 :: "nat \<Rightarrow> nat \<Rightarrow> nat" where
  "add32 x y = (x + y) mod 4294967296"

definition not32 :: "nat \<Rightarrow> nat" where
  "not32 x = x XOR 4294967295"

definition rotl32 :: "nat \<Rightarrow> nat \<Rightarrow> nat" where
  "rotl32 n x = (x * 2 ^ n) mod 4294967296 + x div 2 ^ (32 - n)"

definition be64 :: "nat \<Rightarrow> nat list" where
  "be64 n = [n div 2 ^ 56 mod 256, n div 2 ^ 48 mod 256, n div 2 ^ 40 mod 256,
     n div 2 ^ 32 mod 256, n div 2 ^ 24 mod 256, n div 2 ^ 16 mod 256,
     n div 2 ^ 8 mod 256, n mod 256]"

definition sha1_pad :: "nat list \<Rightarrow> nat list" where
  "sha1_pad m =
     m @ [128] @ replicate ((119 - length m mod 64) mod 64) 0 @ be64 (8 * length m)"

fun words_of :: "nat list \<Rightarrow> nat list" where
  "words_of (a # b # c # d # bs) = (((a * 256 + b) * 256 + c) * 256 + d) # words_of bs"
| "words_of _ = []"

definition sha1_f :: "nat \<Rightarrow> nat \<Rightarrow> nat \<Rightarrow> nat \<Rightarrow> nat" where
  "sha1_f t b c d =
     (if t < 20 then (b AND c) OR (not32 b AND d)
      else if t < 40 then b XOR c XOR d
      else if t < 60 then (b AND c) OR (b AND d) OR (c AND d)
      else b XOR c XOR d)"

definition sha1_k :: "nat \<Rightarrow> nat" where
  "sha1_k t =
     (if t < 20 then 0x5A827999 else if t < 40 then 0x6ED9EBA1
      else if t < 60 then 0x8F1BBCDC else 0xCA62C1D6)"

type_synonym sha1_state = "nat \<times> nat \<times> nat \<times> nat \<times> nat"

text \<open>
  One round. The list holds the sixteen most recent words of the message schedule,
  oldest first; the round consumes the oldest and appends the next.
\<close>

fun sha1_round :: "nat list \<times> sha1_state \<Rightarrow> nat \<Rightarrow> nat list \<times> sha1_state" where
  "sha1_round (w0 # w1 # w2 # w3 # w4 # w5 # w6 # w7 # w8 # w9 # w10 # w11 # w12 # w13
                # w14 # w15 # _, (a, b, c, d, e)) t =
     ([w1, w2, w3, w4, w5, w6, w7, w8, w9, w10, w11, w12, w13, w14, w15,
       rotl32 1 (w13 XOR w8 XOR w2 XOR w0)],
      (add32 (add32 (add32 (add32 (rotl32 5 a) (sha1_f t b c d)) e) w0) (sha1_k t),
       a, rotl32 30 b, c, d))"
| "sha1_round s t = s"

definition sha1_block :: "sha1_state \<Rightarrow> nat list \<Rightarrow> sha1_state" where
  "sha1_block h blk =
     (case h of (h0, h1, h2, h3, h4) \<Rightarrow>
        (case snd (foldl sha1_round (words_of blk, h) [0..<80]) of (a, b, c, d, e) \<Rightarrow>
           (add32 h0 a, add32 h1 b, add32 h2 c, add32 h3 d, add32 h4 e)))"

fun blocks_of :: "nat list \<Rightarrow> nat list list" where
  "blocks_of [] = []"
| "blocks_of (b # bs) = take 64 (b # bs) # blocks_of (drop 64 (b # bs))"

definition hexdigit :: "nat \<Rightarrow> char" where
  "hexdigit n = (''0123456789abcdef'' ! n)"

definition hex32 :: "nat \<Rightarrow> string" where
  "hex32 w = map (\<lambda>k. hexdigit (w div 2 ^ k mod 16)) [28, 24, 20, 16, 12, 8, 4, 0]"

definition sha1_hexdigest :: "nat list \<Rightarrow> string" where
  "sha1_hexdigest m =
     (case foldl sha1_block (0x67452301, 0xEFCDAB89, 0x98BADCFE, 0x10325476, 0xC3D2E1F0)
             (blocks_of (sha1_pad m))
      of (a, b, c, d, e) \<Rightarrow> hex32 a @ hex32 b @ hex32 c @ hex32 d @ hex32 e)"

section \<open>\<open>sortinghat/cli/utils.py\<close>\<close>

text \<open>
  \<open>unaccent_string\<close>: NFD, then drop every code point of category \<open>Mn\<close>. Its
  \<open>TypeError\<close> branch needs an argument that is not a \<open>str\<close>; \<open>generate_uuid\<close> only
  calls it on the result of \<open>str\<close>, and the type \<open>ustr\<close> has no other values.
\<close>

definition unaccent_string :: "ucd \<Rightarrow> ustr \<Rightarrow> ustr" where
  "unaccent_string U unistr = filter (\<lambda>c. \<not> category_Mn U c) (nfd U unistr)"

definition to_str :: "ucd \<Rightarrow> ustr option \<Rightarrow> bool \<Rightarrow> ustr" where
  "to_str U v unaccent =
     (let s = py_str v in if unaccent then unaccent_string U s else s)"

definition quoted :: "string \<Rightarrow> string" where
  "quoted s = CHR 0x27 # s @ [CHR 0x27]"

definition generate_uuid ::
  "ucd \<Rightarrow> ustr option \<Rightarrow> ustr option \<Rightarrow> ustr option \<Rightarrow> ustr option \<Rightarrow> error + string"
where
  "generate_uuid U source email name username =
     (if source = None then Inl (ValueError (quoted ''source'' @ '' cannot be None''))
      else if source = Some [] then
        Inl (ValueError (quoted ''source'' @ '' cannot be an empty string''))
      else if \<not> (truthy email \<or> truthy name \<or> truthy username) then
        Inl (ValueError ''identity data cannot be empty'')
      else
        (case encode_utf8
                (py_lower U
                   (py_join (ustr_of '':'')
                      [to_str U source False, to_str U email False,
                       to_str U name True, to_str U username False]))
         of None \<Rightarrow> Inl UnicodeEncodeError
          | Some s \<Rightarrow> Inr (sha1_hexdigest s)))"

section \<open>The registry the importer works on\<close>

text \<open>
  What a connector hands over: raw identities (\<open>identity.source\<close>, \<open>identity.email\<close>,
  \<open>identity.name\<close>, \<open>identity.username\<close>), enrollments
  (\<open>enrollment.organization.name\<close>, \<open>enrollment.start\<close>, \<open>enrollment.end\<close>; a date is a
  point of a linear order, here an integer), and individuals, each a list of identities
  and a list of enrollments.
\<close>

record raw_identity =
  source :: "ustr option"
  email :: "ustr option"
  name :: "ustr option"
  username :: "ustr option"

record enrollment =
  organization_name :: string
  start_date :: int
  end_date :: int

record individual =
  identities :: "raw_identity list"
  enrollments :: "enrollment list"

text \<open>
  The state the importer reads and writes: the registry (which individual, by its
  \<open>mk\<close>, owns the identity of each fingerprint; which individuals are locked; the
  organizations; the enrollments), what \<open>logger\<close> received, and the calls of \<open>merge\<close>
  made so far (source list, target), oldest first.
\<close>

datatype level = INFO | WARNING

record world =
  identity_owner :: "string \<rightharpoonup> string"
  is_locked :: "string \<Rightarrow> bool"
  organizations :: "string set"
  enrolled :: "(string \<times> string \<times> int \<times> int) set"
  log_lines :: "(level \<times> string) list"
  merge_calls :: "(string list \<times> string) list"

definition logger_info :: "world \<Rightarrow> string \<Rightarrow> world" where
  "logger_info w m = w\<lparr>log_lines := log_lines w @ [(INFO, m)]\<rparr>"

definition logger_warning :: "world \<Rightarrow> string \<Rightarrow> world" where
  "logger_warning w m = w\<lparr>log_lines := log_lines w @ [(WARNING, m)]\<rparr>"

text \<open>
  The fingerprint of a raw identity, as \<open>generate_uuid\<close> computes it. The operations
  below take the fingerprint function as their first argument.
\<close>

definition identity_fingerprint :: "ucd \<Rightarrow> raw_identity \<Rightarrow> error + string" where
  "identity_fingerprint U r = generate_uuid U (source r) (email r) (name r) (username r)"

text \<open>
  Python's \<open>uuid or other\<close>. \<open>if not uuid: uuid = other\<close> leaves a string in \<open>uuid\<close>:
  the old one when it was neither \<open>None\<close> nor empty, \<open>other\<close> otherwise.
\<close>

definition uuid_or :: "string option \<Rightarrow> string \<Rightarrow> string" where
  "uuid_or uuid other = (case uuid of None \<Rightarrow> other | Some u \<Rightarrow> if u = [] then other else u)"

text \<open>
  Modelled from the spec: \<open>api.add_identity\<close> of \<open>sortinghat.core.api\<close>, which is not
  among the source files. The spec's \<open>createIdentity(source, email, name, username,
  hintCanonicalId)\<close> fails with \<open>InvalidValue\<close> when the attributes have no fingerprint
  and with \<open>AlreadyExists(existingId)\<close> when an identity of that fingerprint is stored;
  otherwise it stores the identity under the hinted individual, or under a new
  individual when there is no hint (a hint that is \<open>None\<close> or empty, as Python tests
  it). The spec does not say how a new individual's canonical id is chosen; the model
  takes the fingerprint of its first identity. The result is
  \<open>new_identity.individual.mk\<close> and the new state.
\<close>

definition add_identity ::
  "(raw_identity \<Rightarrow> error + string) \<Rightarrow> world \<Rightarrow> raw_identity \<Rightarrow> string option
     \<Rightarrow> error + (string \<times> world)"
where
  "add_identity fpf w r uuid =
     (case fpf r of
        Inl e \<Rightarrow> Inl (InvalidValueError (str_of_error e))
      | Inr fp \<Rightarrow>
          (case identity_owner w fp of
             Some _ \<Rightarrow> Inl (AlreadyExistsError fp)
           | None \<Rightarrow>
               (let mk = uuid_or uuid fp
                in Inr (mk, w\<lparr>identity_owner := (identity_owner w)(fp \<mapsto> mk)\<rparr>))))"

text \<open>
  Modelled from the spec: \<open>find_identity\<close> of \<open>sortinghat.core.db\<close>, which is not among
  the source files. The spec's \<open>findIdentityByFingerprint(fingerprint)\<close> gives the stored
  identity or \<open>NotFound\<close>. The result is the pair of \<open>stored_identity.individual.mk\<close> and
  \<open>stored_identity.individual.is_locked\<close>.
\<close>

definition find_identity :: "world \<Rightarrow> string \<Rightarrow> error + (string \<times> bool)" where
  "find_identity w eid =
     (case identity_owner w eid of
        None \<Rightarrow> Inl (NotFoundError eid)
      | Some mk \<Rightarrow> Inr (mk, is_locked w mk))"

text \<open>
  Modelled from the spec: \<open>merge\<close> of \<open>sortinghat.core.api\<close>, which is not among the
  source files. The spec's \<open>mergeIndividuals(sourceCanonicalIds, targetCanonicalId)\<close>
  reassigns the identities of the source individuals to the target and has no failure.
  The call is recorded in \<open>merge_calls\<close>.
\<close>

definition merge :: "world \<Rightarrow> string list \<Rightarrow> string \<Rightarrow> world" where
  "merge w from_uuids to_uuid =
     w\<lparr>identity_owner :=
         (\<lambda>fp. case identity_owner w fp of
                 None \<Rightarrow> None
               | Some mk \<Rightarrow> Some (if mk \<in> set from_uuids then to_uuid else mk)),
       merge_calls := merge_calls w @ [(from_uuids, to_uuid)]\<rparr>"

text \<open>
  Modelled from the spec: \<open>api.add_organization\<close> of \<open>sortinghat.core.api\<close>, which is not
  among the source files. The spec's \<open>createOrganization(name)\<close> fails with
  \<open>AlreadyExists\<close> when the organization is stored and stores it otherwise.
\<close>

definition add_organization :: "world \<Rightarrow> string \<Rightarrow> error + world" where
  "add_organization w org =
     (if org \<in> organizations w then Inl (AlreadyExistsError org)
      else Inr (w\<lparr>organizations := insert org (organizations w)\<rparr>))"

text \<open>
  Modelled from the spec: \<open>api.enroll\<close> of \<open>sortinghat.core.api\<close>, which is not among the
  source files. The spec's \<open>enroll(canonicalId, organizationName, from, to)\<close> fails with
  \<open>NotFound\<close> for an unknown group, with a validation failure when the period starts
  after it ends, and with \<open>AlreadyExists\<close> when the same individual, organization and
  period are stored; otherwise it stores the enrollment. The validation failure is the
  \<open>ValueError\<close> the importer catches.
\<close>

definition enroll :: "world \<Rightarrow> string \<Rightarrow> string \<Rightarrow> int \<Rightarrow> int \<Rightarrow> error + world" where
  "enroll w uuid group_name from_date to_date =
     (if group_name \<notin> organizations w then
        Inl (NotFoundError (group_name @ '' not found in the registry''))
      else if from_date > to_date then
        Inl (ValueError ''start date cannot be greater than end date'')
      else if (uuid, group_name, from_date, to_date) \<in> enrolled w then
        Inl (AlreadyExistsError group_name)
      else Inr (w\<lparr>enrolled := insert (uuid, group_name, from_date, to_date) (enrolled w)\<rparr>))"

section \<open>\<open>sortinghat/core/importer/backend.py\<close>\<close>

text \<open>
  One pass of the loop of \<open>__load_identities\<close>, on the state \<open>(w, uuid, nidentities)\<close>.
  An exception no \<open>except\<close> clause catches leaves the loop (\<open>Inl\<close>); the calls that
  raise leave the state as it was.
\<close>

definition load_identity ::
  "(raw_identity \<Rightarrow> error + string) \<Rightarrow> raw_identity \<Rightarrow> world \<times> string option \<times> nat
     \<Rightarrow> error + (world \<times> string option \<times> nat)"
where
  "load_identity fpf identity st =
     (case st of (w, uuid, nidentities) \<Rightarrow>
        (case add_identity fpf w identity uuid of
           Inr (mk, w') \<Rightarrow> Inr (w', Some (uuid_or uuid mk), nidentities + 1)
         | Inl (InvalidValueError m) \<Rightarrow> Inr (logger_warning w m, uuid, nidentities)
         | Inl (AlreadyExistsError eid) \<Rightarrow>
             (case find_identity w eid of
                Inl e \<Rightarrow> Inl e
              | Inr (stored_uuid, stored_is_locked) \<Rightarrow>
                  (let uuid1 = uuid_or uuid stored_uuid in
                   if uuid1 \<noteq> stored_uuid then
                     if stored_is_locked then
                       Inr (logger_warning w
                              (''Individual '' @ stored_uuid @ '' is locked. Not merging.''),
                            Some uuid1, nidentities)
                     else
                       Inr (merge (logger_info w
                                     (''Merging '' @ uuid1 @ '' and '' @ stored_uuid))
                              [uuid1] stored_uuid,
                            Some stored_uuid, nidentities)
                   else Inr (w, Some uuid1, nidentities)))
         | Inl e \<Rightarrow> Inl e))"

fun load_identities_from ::
  "(raw_identity \<Rightarrow> error + string) \<Rightarrow> raw_identity list \<Rightarrow> world \<times> string option \<times> nat
     \<Rightarrow> (error + (string option \<times> nat)) \<times> world"
where
  "load_identities_from fpf [] (w, uuid, nidentities) = (Inr (uuid, nidentities), w)"
| "load_identities_from fpf (identity # rest) (w, uuid, nidentities) =
     (case load_identity fpf identity (w, uuid, nidentities) of
        Inl e \<Rightarrow> (Inl e, w)
      | Inr st \<Rightarrow> load_identities_from fpf rest st)"

definition load_identities ::
  "(raw_identity \<Rightarrow> error + string) \<Rightarrow> raw_identity list \<Rightarrow> world
     \<Rightarrow> (error + (string option \<times> nat)) \<times> world"
where
  "load_identities fpf ids w = load_identities_from fpf ids (w, None, 0)"

text \<open>
  \<open>__load_enrollments\<close>. \<open>MIN_PERIOD_DATE\<close> and \<open>MAX_PERIOD_DATE\<close> come from
  \<open>sortinghat.core.models\<close>, which is not among the source files; they are parameters.
  \<open>except (ValueError, NotFoundError)\<close> also catches \<open>UnicodeEncodeError\<close>, a subclass of
  \<open>ValueError\<close>.
\<close>

definition ensure_organization :: "world \<Rightarrow> string \<Rightarrow> error + world" where
  "ensure_organization w org =
     (case add_organization w org of
        Inr w' \<Rightarrow> Inr w'
      | Inl (AlreadyExistsError _) \<Rightarrow> Inr w
      | Inl e \<Rightarrow> Inl e)"

fun load_enrollments ::
  "int \<Rightarrow> int \<Rightarrow> enrollment list \<Rightarrow> string \<Rightarrow> world \<Rightarrow> (error + unit) \<times> world"
where
  "load_enrollments MIN_PERIOD_DATE MAX_PERIOD_DATE [] uuid w = (Inr (), w)"
| "load_enrollments MIN_PERIOD_DATE MAX_PERIOD_DATE (enrollment # rest) uuid w =
     (case ensure_organization w (organization_name enrollment) of
        Inl e \<Rightarrow> (Inl e, w)
      | Inr w1 \<Rightarrow>
          (let from_date = max MIN_PERIOD_DATE (start_date enrollment);
               to_date = min MAX_PERIOD_DATE (end_date enrollment)
           in case enroll w1 uuid (organization_name enrollment) from_date to_date of
                Inr w2 \<Rightarrow> load_enrollments MIN_PERIOD_DATE MAX_PERIOD_DATE rest uuid w2
              | Inl (AlreadyExistsError _) \<Rightarrow>
                  load_enrollments MIN_PERIOD_DATE MAX_PERIOD_DATE rest uuid w1
              | Inl (ValueError m) \<Rightarrow> (Inl (LoadError m), w1)
              | Inl UnicodeEncodeError \<Rightarrow>
                  (Inl (LoadError (str_of_error UnicodeEncodeError)), w1)
              | Inl (NotFoundError m) \<Rightarrow> (Inl (LoadError m), w1)
              | Inl e \<Rightarrow> (Inl e, w1)))"

text \<open>
  \<open>if uuid: self.__load_enrollments(individual.enrollments, uuid)\<close>
\<close>

definition load_enrollments_if ::
  "int \<Rightarrow> int \<Rightarrow> enrollment list \<Rightarrow> string option \<Rightarrow> world \<Rightarrow> (error + unit) \<times> world"
where
  "load_enrollments_if MIN_PERIOD_DATE MAX_PERIOD_DATE enrs uuid w =
     (case uuid of
        None \<Rightarrow> (Inr (), w)
      | Some u \<Rightarrow>
          if u = [] then (Inr (), w)
          else load_enrollments MIN_PERIOD_DATE MAX_PERIOD_DATE enrs u w)"

text \<open>
  \<open>load\<close>: the loop over the individuals, with the running \<open>total\<close> (\<open>ntotal\<close>), then the
  function itself with its two log lines. Nothing in \<open>load\<close> catches an exception.
\<close>

fun load_from ::
  "(raw_identity \<Rightarrow> error + string) \<Rightarrow> int \<Rightarrow> int \<Rightarrow> individual list \<Rightarrow> world \<Rightarrow> nat
     \<Rightarrow> (error + nat) \<times> world"
where
  "load_from fpf MIN_PERIOD_DATE MAX_PERIOD_DATE [] w ntotal = (Inr ntotal, w)"
| "load_from fpf MIN_PERIOD_DATE MAX_PERIOD_DATE (individual # rest) w ntotal =
     (case load_identities fpf (identities individual) w of
        (Inl e, w1) \<Rightarrow> (Inl e, w1)
      | (Inr (uuid, nidentities), w1) \<Rightarrow>
          (case load_enrollments_if MIN_PERIOD_DATE MAX_PERIOD_DATE
                  (enrollments individual) uuid w1
           of (Inl e, w2) \<Rightarrow> (Inl e, w2)
            | (Inr _, w2) \<Rightarrow>
                load_from fpf MIN_PERIOD_DATE MAX_PERIOD_DATE rest w2 (ntotal + nidentities)))"

definition load ::
  "(raw_identity \<Rightarrow> error + string) \<Rightarrow> int \<Rightarrow> int \<Rightarrow> individual list \<Rightarrow> world
     \<Rightarrow> (error + nat) \<times> world"
where
  "load fpf MIN_PERIOD_DATE MAX_PERIOD_DATE individuals w =
     (case load_from fpf MIN_PERIOD_DATE MAX_PERIOD_DATE individuals
             (logger_info w ''Loading individuals'') 0
      of (Inl e, w') \<Rightarrow> (Inl e, w')
       | (Inr ntotal, w') \<Rightarrow> (Inr ntotal, logger_info w' ''Individuals loaded''))"

section \<open>The fingerprint algorithm in the words of the specification\<close>

text \<open>
  The specification's algorithm, for comparison with \<open>generate_uuid\<close>: stringify each
  field, an absent one as the empty string; unaccent the name only; join with colons;
  lower-case the whole; encode with unencodable characters replaced (Python's
  \<open>errors="replace"\<close> writes a question mark); take the hex SHA-1 digest. \<open>None\<close> is the
  specification's \<open>InvalidInput\<close>.
\<close>

definition spec_str :: "ustr option \<Rightarrow> ustr" where
  "spec_str v = (case v of None \<Rightarrow> [] | Some s \<Rightarrow> s)"

definition encode_utf8_replace :: "ustr \<Rightarrow> nat list" where
  "encode_utf8_replace s = concat (map (\<lambda>c. if is_surrogate c then [0x3F] else utf8_bytes c) s)"

definition spec_fingerprint ::
  "ucd \<Rightarrow> ustr option \<Rightarrow> ustr option \<Rightarrow> ustr option \<Rightarrow> ustr option \<Rightarrow> string option"
where
  "spec_fingerprint U src em nm un =
     (if \<not> truthy src \<or> \<not> (truthy em \<or> truthy nm \<or> truthy un) then None
      else Some (sha1_hexdigest (encode_utf8_replace (py_lower U
             (spec_str src @ ustr_of '':'' @ spec_str em @ ustr_of '':''
                @ unaccent_string U (spec_str nm) @ ustr_of '':'' @ spec_str un)))))"

section \<open>Concrete data for the examples\<close>

text \<open>
  The Unicode tables on the code points the examples use: ASCII, the letters U+00D6 and
  U+00F6 (O and o with diaeresis), the combining diaeresis U+0308, and the Greek letters
  U+0391 (capital alpha), U+03A3 (capital sigma), U+03B1, U+03C2 and U+03C3 (small alpha,
  final sigma, sigma), and the surrogate U+D800, which no table changes. On these the
  entries are those of the Unicode database; the examples hold no other code point.
\<close>

definition ucd_excerpt :: ucd where
  "ucd_excerpt =
     \<lparr>nfd = (\<lambda>s. concat (map (\<lambda>c. if c = 0xF6 then [0x6F, 0x308]
                                   else if c = 0xD6 then [0x4F, 0x308] else [c]) s)),
      category_Mn = (\<lambda>c. c = 0x308),
      to_lower_full = (\<lambda>c. if 0x41 \<le> c \<and> c \<le> 0x5A then [c + 32]
                           else if c = 0xD6 then [0xF6]
                           else if c = 0x391 then [0x3B1]
                           else if c = 0x3A3 then [0x3C3] else [c]),
      is_cased = (\<lambda>c. (0x41 \<le> c \<and> c \<le> 0x5A) \<or> (0x61 \<le> c \<and> c \<le> 0x7A)
                      \<or> c \<in> {0xD6, 0xF6, 0x391, 0x3A3, 0x3B1, 0x3C2, 0x3C3}),
      is_case_ignorable = (\<lambda>c. c \<in> {0x27, 0x2E, 0x3A, 0x5E, 0x60, 0x308})\<rparr>"

text \<open>The bytes of \<open>scm:jsmith@example.com:john smith:jsmith\<close>.\<close>

definition john_smith_bytes :: "nat list" where
  "john_smith_bytes = [115, 99, 109, 58, 106, 115, 109, 105, 116, 104, 64, 101, 120, 97, 109, 112, 108, 101, 46, 99, 111, 109, 58, 106, 111, 104, 110, 32, 115, 109, 105, 116, 104, 58, 106, 115, 109, 105, 116, 104]"

text \<open>
  Two identities of the source \<open>scm\<close> with an email only, one with an empty source, and
  the fingerprints of the first two.
\<close>

definition id_a :: raw_identity where
  "id_a = \<lparr>source = Some (ustr_of ''scm''), email = Some (ustr_of ''a''),
           name = None, username = None\<rparr>"

definition id_b :: raw_identity where
  "id_b = \<lparr>source = Some (ustr_of ''scm''), email = Some (ustr_of ''b''),
           name = None, username = None\<rparr>"

definition id_nosource :: raw_identity where
  "id_nosource = \<lparr>source = Some [], email = Some (ustr_of ''a''),
           name = None, username = None\<rparr>"

definition fp_a :: string where
  "fp_a = ''b39c19d189a02b5f0c8394ddd5fabc47e0353f92''"

definition fp_b :: string where
  "fp_b = ''0135c4fbe360929fc1c9983fcc24219f712617c8''"

definition empty_world :: world where
  "empty_world =
     \<lparr>identity_owner = Map.empty, is_locked = (\<lambda>_. False), organizations = {},
      enrolled = {}, log_lines = [], merge_calls = []\<rparr>"

text \<open>
  Registries for the examples: the identities \<open>id_a\<close> and \<open>id_b\<close> stored, each the only
  identity of an individual of its own; the same with the first individual locked; the
  same with the second individual locked.
\<close>

definition two_individuals :: world where
  "two_individuals = empty_world\<lparr>identity_owner := [fp_a \<mapsto> fp_a, fp_b \<mapsto> fp_b]\<rparr>"

definition first_locked :: world where
  "first_locked = two_individuals\<lparr>is_locked := (\<lambda>mk. mk = fp_a)\<rparr>"

definition second_locked :: world where
  "second_locked = two_individuals\<lparr>is_locked := (\<lambda>mk. mk = fp_b)\<rparr>"

text \<open>
  A second spelling of \<open>id_a\<close>, and three enrollments for limits 0 and 10, or 100 and
  200: one that starts after it ends, one that reaches below the lower limit, one that
  lies below it altogether.
\<close>

definition id_a_upper :: raw_identity where
  "id_a_upper = \<lparr>source = Some (ustr_of ''scm''), email = Some (ustr_of ''A''),
           name = None, username = None\<rparr>"

definition bad_period :: enrollment where
  "bad_period = \<lparr>organization_name = ''Example'', start_date = 5, end_date = 3\<rparr>"

definition early_period :: enrollment where
  "early_period = \<lparr>organization_name = ''Example'', start_date = 10, end_date = 150\<rparr>"

definition before_range :: enrollment where
  "before_range = \<lparr>organization_name = ''Example'', start_date = 10, end_date = 20\<rparr>"

section \<open>Relations between the state before and after\<close>

text \<open>
  \<open>merges_spare_locked w w'\<close>: from \<open>w\<close> to \<open>w'\<close> no lock has changed, and every call of
  \<open>merge\<close> made in between has one source and a target that is another individual and
  is not locked.
\<close>

definition merges_spare_locked :: "world \<Rightarrow> world \<Rightarrow> bool" where
  "merges_spare_locked w w' \<longleftrightarrow>
     is_locked w' = is_locked w
     \<and> (\<exists>calls. merge_calls w' = merge_calls w @ calls
           \<and> (\<forall>c\<in>set calls. length (fst c) = 1 \<and> snd c \<notin> set (fst c)
                               \<and> \<not> is_locked w (snd c)))"

text \<open>
  The fingerprints of the identities of a list that have one, in order, and those of
  all the individuals of a list.
\<close>

fun valid_fingerprints :: "(raw_identity \<Rightarrow> error + string) \<Rightarrow> raw_identity list \<Rightarrow> string list" where
  "valid_fingerprints fpf [] = []"
| "valid_fingerprints fpf (r # rs) =
     (case fpf r of Inl _ \<Rightarrow> valid_fingerprints fpf rs | Inr d \<Rightarrow> d # valid_fingerprints fpf rs)"

definition all_fingerprints :: "(raw_identity \<Rightarrow> error + string) \<Rightarrow> individual list \<Rightarrow> string list" where
  "all_fingerprints fpf cs = concat (map (\<lambda>c. valid_fingerprints fpf (identities c)) cs)"

text \<open>
  \<open>owned_by w P m\<close>: the identities with the fingerprints \<open>P\<close> are stored, all under the
  individual \<open>m\<close>. \<open>together w fps\<close>: there is such an individual for \<open>fps\<close>.
  \<open>keeps_together w w'\<close>: identities stored under one individual in \<open>w\<close> are stored under
  one individual in \<open>w'\<close>.
\<close>

definition owned_by :: "world \<Rightarrow> string set \<Rightarrow> string \<Rightarrow> bool" where
  "owned_by w P m \<longleftrightarrow> (\<forall>d\<in>P. identity_owner w d = Some m)"

definition together :: "world \<Rightarrow> string list \<Rightarrow> bool" where
  "together w fps \<longleftrightarrow> (\<exists>m. owned_by w (set fps) m)"

definition keeps_together :: "world \<Rightarrow> world \<Rightarrow> bool" where
  "keeps_together w w' \<longleftrightarrow>
     (\<forall>d1 d2 m. identity_owner w d1 = Some m \<and> identity_owner w d2 = Some m
        \<longrightarrow> (\<exists>m'. identity_owner w' d1 = Some m' \<and> identity_owner w' d2 = Some m'))"

text \<open>
  \<open>sound_registry w\<close>: nothing is locked and no \<open>mk\<close> is the empty string, as in a
  registry only the importer has written to. \<open>working w uuid P\<close>: the working \<open>uuid\<close>
  is unset and \<open>P\<close> is empty, or it is a non-empty \<open>mk\<close> that owns all of \<open>P\<close>.
\<close>

definition sound_registry :: "world \<Rightarrow> bool" where
  "sound_registry w \<longleftrightarrow>
     (\<forall>m. \<not> is_locked w m) \<and> (\<forall>d m. identity_owner w d = Some m \<longrightarrow> m \<noteq> [])"

definition working :: "world \<Rightarrow> string option \<Rightarrow> string set \<Rightarrow> bool" where
  "working w uuid P \<longleftrightarrow>
     (uuid = None \<and> P = {}) \<or> (\<exists>u. uuid = Some u \<and> u \<noteq> [] \<and> owned_by w P u)"

text \<open>
  \<open>nonempty_fingerprints fpf\<close>: no fingerprint is the empty string.
  \<open>periods_ordered lo hi cs\<close>: every enrollment of \<open>cs\<close>, clamped to the limits, starts
  no later than it ends.
\<close>

definition nonempty_fingerprints :: "(raw_identity \<Rightarrow> error + string) \<Rightarrow> bool" where
  "nonempty_fingerprints fpf \<longleftrightarrow> (\<forall>r d. fpf r = Inr d \<longrightarrow> d \<noteq> [])"

definition periods_ordered :: "int \<Rightarrow> int \<Rightarrow> individual list \<Rightarrow> bool" where
  "periods_ordered lo hi cs \<longleftrightarrow>
     (\<forall>c\<in>set cs. \<forall>e\<in>set (enrollments c). max lo (start_date e) \<le> min hi (end_date e))"

section \<open>Evaluating the digest\<close>

text \<open>Rules that let the simplifier run the loops of SHA-1 on a concrete message.\<close>

lemma foldl_upt_unroll:
  "foldl f s [i..<j] = (if i < j then foldl f (f s i) [Suc i..<j] else s)"
  by (simp add: upt_rec [of i j])

lemma replicate_unroll:
  "replicate n x = (if n = 0 then [] else x # replicate (n - 1) x)"
  by (cases n) simp_all

lemmas sha1_eval = sha1_hexdigest_def sha1_pad_def be64_def sha1_block_def rotl32_def
  add32_def not32_def sha1_f_def sha1_k_def hex32_def hexdigit_def foldl_upt_unroll
  replicate_unroll

lemmas uuid_eval = generate_uuid_def truthy_def to_str_def py_str_def ustr_of_def
  unaccent_string_def py_lower_def utf8_char_def utf8_bytes_def is_surrogate_def
  ucd_excerpt_def

text \<open>The digest of \<open>abc\<close> is the one FIPS 180-4 gives for it.\<close>

lemma sha1_abc: "sha1_hexdigest [97, 98, 99] = ''a9993e364706816aba3e25717850c26c9cd0d89d''"
  by (simp add: sha1_eval)

lemma length_hex32: "length (hex32 w) = 8"
  by (simp add: hex32_def)

lemma length_sha1_hexdigest: "length (sha1_hexdigest m) = 40"
  by (simp add: sha1_hexdigest_def length_hex32 split: prod.splits)

text \<open>
  The digests of the byte strings \<open>scm:a:none:none\<close>, \<open>scm:b:none:none\<close> and
  \<open>scm:a::\<close>.
\<close>

lemma sha1_scm_a:
  "sha1_hexdigest [115, 99, 109, 58, 97, 58, 110, 111, 110, 101, 58, 110, 111, 110, 101] = fp_a"
  by (simp add: sha1_eval fp_a_def)

lemma sha1_scm_b:
  "sha1_hexdigest [115, 99, 109, 58, 98, 58, 110, 111, 110, 101, 58, 110, 111, 110, 101] = fp_b"
  by (simp add: sha1_eval fp_b_def)

lemma sha1_scm_a_empty:
  "sha1_hexdigest [115, 99, 109, 58, 97, 58, 58] = ''f580884dea01ebb3ac1599a17f2812b1c35e3ddf''"
  by (simp add: sha1_eval)

lemma generate_uuid_scm_a:
  "generate_uuid ucd_excerpt (Some (ustr_of ''scm'')) (Some (ustr_of ''a'')) None None = Inr fp_a"
  using sha1_scm_a by (simp add: uuid_eval)

lemma fingerprint_id_a: "identity_fingerprint ucd_excerpt id_a = Inr fp_a"
  using generate_uuid_scm_a by (simp add: identity_fingerprint_def id_a_def)

lemma fingerprint_id_b: "identity_fingerprint ucd_excerpt id_b = Inr fp_b"
  using sha1_scm_b by (simp add: identity_fingerprint_def id_b_def uuid_eval)

lemma fingerprint_id_a_upper: "identity_fingerprint ucd_excerpt id_a_upper = Inr fp_a"
  using sha1_scm_a by (simp add: identity_fingerprint_def id_a_upper_def uuid_eval)

lemma fingerprint_id_nosource:
  "identity_fingerprint ucd_excerpt id_nosource
     = Inl (ValueError (quoted ''source'' @ '' cannot be an empty string''))"
  by (simp add: identity_fingerprint_def id_nosource_def generate_uuid_def)

lemma fp_distinct:
  "fp_a \<noteq> fp_b" "fp_b \<noteq> fp_a" "fp_a \<noteq> []" "fp_b \<noteq> []"
  by (simp_all add: fp_a_def fp_b_def)

lemmas fingerprint_examples = fingerprint_id_a fingerprint_id_b fingerprint_id_nosource
  fp_distinct

section \<open>The fingerprint algorithm\<close>

lemma generate_uuid_valid:
  assumes "truthy src" and "truthy em \<or> truthy nm \<or> truthy un"
  shows "generate_uuid U src em nm un =
           (case encode_utf8 (py_lower U
                   (py_str src @ ustr_of '':'' @ py_str em @ ustr_of '':''
                      @ unaccent_string U (py_str nm) @ ustr_of '':'' @ py_str un))
            of None \<Rightarrow> Inl UnicodeEncodeError
             | Some s \<Rightarrow> Inr (sha1_hexdigest s))"
  using assms
  by (auto simp: generate_uuid_def to_str_def truthy_def split: option.splits)

lemma encode_utf8_None_iff:
  "encode_utf8 s = None
     \<longleftrightarrow> (\<exists>c\<in>set s. is_surrogate c \<and> \<not> (0xDC80 \<le> c \<and> c \<le> 0xDCFF))"
  by (induction s) (auto simp: utf8_char_def split: option.splits)

lemma encode_utf8_replace_agree:
  "\<forall>c\<in>set s. \<not> is_surrogate c \<Longrightarrow> encode_utf8 s = Some (encode_utf8_replace s)"
  by (induction s) (auto simp: utf8_char_def encode_utf8_replace_def)

text \<open>
  Where no field is absent and the lower-cased string holds no surrogate, the code and
  the specification's algorithm give the same digest.
\<close>

theorem generate_uuid_agrees_with_spec:
  assumes "truthy src" and "truthy em \<or> truthy nm \<or> truthy un"
    and "em \<noteq> None" and "nm \<noteq> None" and "un \<noteq> None"
    and "\<forall>c\<in>set (py_lower U
                   (py_str src @ ustr_of '':'' @ py_str em @ ustr_of '':''
                      @ unaccent_string U (py_str nm) @ ustr_of '':'' @ py_str un)).
           \<not> is_surrogate c"
  shows "spec_fingerprint U src em nm un = Some d \<longleftrightarrow> generate_uuid U src em nm un = Inr d"
proof -
  have eq: "py_str src = spec_str src" "py_str em = spec_str em"
    "py_str nm = spec_str nm" "py_str un = spec_str un"
    using assms by (auto simp: py_str_def spec_str_def truthy_def split: option.splits)
  show ?thesis
    using assms(1,2) encode_utf8_replace_agree [OF assms(6)]
      generate_uuid_valid [OF assms(1,2), of U]
    by (auto simp: spec_fingerprint_def eq)
qed

theorem generate_uuid_agrees_with_spec_witness:
  "generate_uuid ucd_excerpt (Some (ustr_of ''scm'')) (Some (ustr_of ''JSMITH@EXAMPLE.COM''))
      (Some (ustr_of ''J'' @ [0xF6] @ ustr_of ''hn Smith'')) (Some (ustr_of ''JSMITH''))
     = Inr (sha1_hexdigest john_smith_bytes)
   \<and> spec_fingerprint ucd_excerpt (Some (ustr_of ''scm'')) (Some (ustr_of ''JSMITH@EXAMPLE.COM''))
      (Some (ustr_of ''J'' @ [0xF6] @ ustr_of ''hn Smith'')) (Some (ustr_of ''JSMITH''))
     = Some (sha1_hexdigest john_smith_bytes)"
proof -
  let ?s = "Some (ustr_of ''scm'')" and ?e = "Some (ustr_of ''JSMITH@EXAMPLE.COM'')"
  let ?n = "Some (ustr_of ''J'' @ [0xF6] @ ustr_of ''hn Smith'')" and ?u = "Some (ustr_of ''JSMITH'')"
  have g: "generate_uuid ucd_excerpt ?s ?e ?n ?u = Inr (sha1_hexdigest john_smith_bytes)"
    by (simp add: uuid_eval john_smith_bytes_def)
  have "spec_fingerprint ucd_excerpt ?s ?e ?n ?u = Some (sha1_hexdigest john_smith_bytes)
          \<longleftrightarrow> generate_uuid ucd_excerpt ?s ?e ?n ?u = Inr (sha1_hexdigest john_smith_bytes)"
    by (rule generate_uuid_agrees_with_spec) (simp_all add: uuid_eval)
  with g show ?thesis by simp
qed

text \<open>
  Claim C4, as amended. For every valid input the fingerprint is the SHA-1 digest, forty
  hex digits, of the bytes obtained by stringifying each field with \<open>str\<close>, so that an
  absent field becomes the text \<open>None\<close>, unaccenting the name only, joining with colons,
  lower-casing the whole, and encoding as UTF-8 under \<open>surrogateescape\<close>; where that
  encoding fails the call raises \<open>UnicodeEncodeError\<close>.
\<close>

theorem generate_uuid_digest:
  assumes "truthy src" and "truthy em \<or> truthy nm \<or> truthy un"
  shows "generate_uuid U src em nm un =
           (case encode_utf8 (py_lower U
                   (py_str src @ ustr_of '':'' @ py_str em @ ustr_of '':''
                      @ unaccent_string U (py_str nm) @ ustr_of '':'' @ py_str un))
            of None \<Rightarrow> Inl UnicodeEncodeError
             | Some s \<Rightarrow> Inr (sha1_hexdigest s))
         \<and> (\<forall>s. length (sha1_hexdigest s) = 40)"
  using generate_uuid_valid [OF assms] by (simp add: length_sha1_hexdigest)

theorem generate_uuid_digest_witness:
  "truthy (Some (ustr_of ''scm'')) \<and> truthy (Some (ustr_of ''a''))
   \<and> generate_uuid ucd_excerpt (Some (ustr_of ''scm'')) (Some (ustr_of ''a'')) None None
       = Inr ''b39c19d189a02b5f0c8394ddd5fabc47e0353f92''
   \<and> length ''b39c19d189a02b5f0c8394ddd5fabc47e0353f92'' = 40"
proof -
  have 1: "truthy (Some (ustr_of ''scm''))" and 2: "truthy (Some (ustr_of ''a''))"
    by (simp_all add: truthy_def ustr_of_def)
  have 3: "truthy (Some (ustr_of ''a'')) \<or> truthy None \<or> truthy None"
    using 2 by simp
  from generate_uuid_digest [OF 1 3, of ucd_excerpt] 1 2 generate_uuid_scm_a
  show ?thesis by (simp add: fp_a_def)
qed

text \<open>
  The claim as the specification words it fails where a field is absent: for the source
  \<open>scm\<close> and the email \<open>a\<close> alone the code digests \<open>scm:a:none:none\<close>, the
  specification's algorithm \<open>scm:a::\<close>.
\<close>

theorem generate_uuid_absent_counterexample:
  "generate_uuid ucd_excerpt (Some (ustr_of ''scm'')) (Some (ustr_of ''a'')) None None
     = Inr ''b39c19d189a02b5f0c8394ddd5fabc47e0353f92''
   \<and> spec_fingerprint ucd_excerpt (Some (ustr_of ''scm'')) (Some (ustr_of ''a'')) None None
     = Some ''f580884dea01ebb3ac1599a17f2812b1c35e3ddf''"
  using generate_uuid_scm_a sha1_scm_a_empty
  by (simp add: fp_a_def spec_fingerprint_def spec_str_def encode_utf8_replace_def
      truthy_def ustr_of_def unaccent_string_def py_lower_def utf8_bytes_def
      is_surrogate_def ucd_excerpt_def)

section \<open>The fingerprint: when it is rejected\<close>

text \<open>
  The three checks at the head of \<open>generate_uuid\<close> raise \<open>ValueError\<close>; an input that
  passes them has a true source and a true attribute beside it.
\<close>

lemma generate_uuid_invalid:
  assumes "src = None \<or> src = Some []
           \<or> (em \<in> {None, Some []} \<and> nm \<in> {None, Some []} \<and> un \<in> {None, Some []})"
  shows "\<exists>m. generate_uuid U src em nm un = Inl (ValueError m)"
  using assms by (auto simp: generate_uuid_def truthy_def split: option.splits)

lemma not_invalid_truthy:
  assumes "\<not> (src = None \<or> src = Some []
           \<or> (em \<in> {None, Some []} \<and> nm \<in> {None, Some []} \<and> un \<in> {None, Some []}))"
  shows "truthy src" and "truthy em \<or> truthy nm \<or> truthy un"
  using assms by (auto simp: truthy_def split: option.splits)

text \<open>
  Claim C6, as amended. \<open>generate_uuid\<close> raises a \<open>ValueError\<close>, the exception class
  itself or its subclass \<open>UnicodeEncodeError\<close>, exactly when \<open>source\<close> is \<open>None\<close> or empty,
  or \<open>email\<close>, \<open>name\<close> and \<open>username\<close> are all \<open>None\<close> or empty, or the lower-cased joined
  string holds a surrogate outside U+DC80..U+DCFF, which \<open>surrogateescape\<close> cannot
  encode. It raises nothing else. The exception is the \<open>ValueError\<close> of the validation
  exactly in the first two cases, and \<open>UnicodeEncodeError\<close> exactly in the third when the
  first two do not hold. In particular the call fails for an empty source, and for the
  source \<open>scm\<close> with the three other attributes absent.
\<close>

theorem generate_uuid_raises_iff:
  "((\<exists>e. generate_uuid U src em nm un = Inl e \<and> is_ValueError e)
      \<longleftrightarrow> (src = None \<or> src = Some []
           \<or> (em \<in> {None, Some []} \<and> nm \<in> {None, Some []} \<and> un \<in> {None, Some []})
           \<or> (\<exists>c\<in>set (py_lower U
                   (py_str src @ ustr_of '':'' @ py_str em @ ustr_of '':''
                      @ unaccent_string U (py_str nm) @ ustr_of '':'' @ py_str un)).
                 is_surrogate c \<and> \<not> (0xDC80 \<le> c \<and> c \<le> 0xDCFF))))
   \<and> ((\<exists>e. generate_uuid U src em nm un = Inl e)
      \<longleftrightarrow> (\<exists>e. generate_uuid U src em nm un = Inl e \<and> is_ValueError e))
   \<and> ((\<exists>m. generate_uuid U src em nm un = Inl (ValueError m))
      \<longleftrightarrow> (src = None \<or> src = Some []
           \<or> (em \<in> {None, Some []} \<and> nm \<in> {None, Some []} \<and> un \<in> {None, Some []})))
   \<and> (generate_uuid U src em nm un = Inl UnicodeEncodeError
      \<longleftrightarrow> (\<not> (src = None \<or> src = Some []
           \<or> (em \<in> {None, Some []} \<and> nm \<in> {None, Some []} \<and> un \<in> {None, Some []}))
           \<and> (\<exists>c\<in>set (py_lower U
                   (py_str src @ ustr_of '':'' @ py_str em @ ustr_of '':''
                      @ unaccent_string U (py_str nm) @ ustr_of '':'' @ py_str un)).
                 is_surrogate c \<and> \<not> (0xDC80 \<le> c \<and> c \<le> 0xDCFF))))
   \<and> (\<exists>m. generate_uuid U (Some []) em nm un = Inl (ValueError m))
   \<and> (\<exists>m. generate_uuid U (Some (ustr_of ''scm'')) None None None = Inl (ValueError m))"
proof -
  let ?inv = "src = None \<or> src = Some []
           \<or> (em \<in> {None, Some []} \<and> nm \<in> {None, Some []} \<and> un \<in> {None, Some []})"
  let ?s = "py_lower U (py_str src @ ustr_of '':'' @ py_str em @ ustr_of '':''
                      @ unaccent_string U (py_str nm) @ ustr_of '':'' @ py_str un)"
  let ?bad = "\<exists>c\<in>set ?s. is_surrogate c \<and> \<not> (0xDC80 \<le> c \<and> c \<le> 0xDCFF)"
  let ?g = "generate_uuid U src em nm un"
  have p1: "\<exists>m. generate_uuid U (Some []) em nm un = Inl (ValueError m)"
    by (rule generate_uuid_invalid) simp
  have p2: "\<exists>m. generate_uuid U (Some (ustr_of ''scm'')) None None None = Inl (ValueError m)"
    by (rule generate_uuid_invalid) simp
  show ?thesis
  proof (cases ?inv)
    case True
    then obtain m where g: "?g = Inl (ValueError m)"
      using generate_uuid_invalid [of src em nm un U] by blast
    show ?thesis using True p1 p2 unfolding g by (auto simp: is_ValueError_def)
  next
    case False
    have g: "?g = (case encode_utf8 ?s of None \<Rightarrow> Inl UnicodeEncodeError
                    | Some s \<Rightarrow> Inr (sha1_hexdigest s))"
      by (rule generate_uuid_valid) (rule not_invalid_truthy [OF False])+
    show ?thesis
    proof (cases "encode_utf8 ?s")
      case None
      then have b: ?bad by (simp only: encode_utf8_None_iff)
      have g': "?g = Inl UnicodeEncodeError" using g None by simp
      show ?thesis using False b p1 p2 unfolding g' by (auto simp: is_ValueError_def)
    next
      case (Some bs)
      then have b: "\<not> ?bad" using encode_utf8_None_iff [of ?s] by simp
      have g': "?g = Inr (sha1_hexdigest bs)" using g Some by simp
      show ?thesis using False b p1 p2 unfolding g' by auto
    qed
  qed
qed

text \<open>
  The claim as the specification words it fails on a lone surrogate: with the source
  \<open>scm\<close> and the email U+D800 the source is not empty and an attribute is given, and the
  call still raises a \<open>ValueError\<close>, from \<open>encode\<close>.
\<close>

theorem generate_uuid_surrogate_counterexample:
  "generate_uuid ucd_excerpt (Some (ustr_of ''scm'')) (Some [0xD800]) None None
     = Inl UnicodeEncodeError
   \<and> is_ValueError UnicodeEncodeError
   \<and> Some (ustr_of ''scm'') \<notin> {None, Some []}
   \<and> Some [0xD800] \<notin> {None :: ustr option, Some []}"
  by (simp add: generate_uuid_def truthy_def to_str_def py_str_def ustr_of_def
      unaccent_string_def py_lower_def utf8_char_def utf8_bytes_def is_surrogate_def
      ucd_excerpt_def is_ValueError_def)

section \<open>The fingerprint under changes of case and accents\<close>

text \<open>
  Away from the capital sigma \<open>str.lower\<close> works code point by code point, so it can be
  taken field by field.
\<close>

lemma lower_from_no_sigma:
  "0x3A3 \<notin> set s \<Longrightarrow> lower_from U before s = concat (map (to_lower_full U) s)"
  by (induction s arbitrary: before) auto

lemma py_lower_no_sigma:
  "0x3A3 \<notin> set s \<Longrightarrow> py_lower U s = concat (map (to_lower_full U) s)"
  by (simp add: py_lower_def lower_from_no_sigma)

lemma py_lower_append:
  assumes "0x3A3 \<notin> set a" and "0x3A3 \<notin> set b"
  shows "py_lower U (a @ b) = py_lower U a @ py_lower U b"
  using assms by (simp add: py_lower_no_sigma)

lemma py_lower_joined:
  assumes "0x3A3 \<notin> set a" "0x3A3 \<notin> set b" "0x3A3 \<notin> set c" "0x3A3 \<notin> set d"
  shows "py_lower U (a @ ustr_of '':'' @ b @ ustr_of '':'' @ c @ ustr_of '':'' @ d)
         = py_lower U a @ py_lower U (ustr_of '':'') @ py_lower U b @ py_lower U (ustr_of '':'')
             @ py_lower U c @ py_lower U (ustr_of '':'') @ py_lower U d"
  using assms by (simp add: py_lower_no_sigma ustr_of_def)

text \<open>
  For valid inputs with no capital sigma (U+03A3) in a field: when source, email and
  username agree after lower-casing, and the names agree after unaccenting and
  lower-casing, the fingerprints are equal. The example of the docstring and of the
  specification, the two spellings of John Smith, is an instance.
\<close>

theorem generate_uuid_case_invariant:
  assumes "truthy src" and "truthy em \<or> truthy nm \<or> truthy un"
    and "truthy src'" and "truthy em' \<or> truthy nm' \<or> truthy un'"
    and "0x3A3 \<notin> set (py_str src) \<union> set (py_str em)
            \<union> set (unaccent_string U (py_str nm)) \<union> set (py_str un)"
    and "0x3A3 \<notin> set (py_str src') \<union> set (py_str em')
            \<union> set (unaccent_string U (py_str nm')) \<union> set (py_str un')"
    and "py_lower U (py_str src) = py_lower U (py_str src')"
    and "py_lower U (py_str em) = py_lower U (py_str em')"
    and "py_lower U (unaccent_string U (py_str nm)) = py_lower U (unaccent_string U (py_str nm'))"
    and "py_lower U (py_str un) = py_lower U (py_str un')"
  shows "generate_uuid U src em nm un = generate_uuid U src' em' nm' un'"
proof -
  have "py_lower U (py_str src @ ustr_of '':'' @ py_str em @ ustr_of '':''
            @ unaccent_string U (py_str nm) @ ustr_of '':'' @ py_str un)
        = py_lower U (py_str src' @ ustr_of '':'' @ py_str em' @ ustr_of '':''
            @ unaccent_string U (py_str nm') @ ustr_of '':'' @ py_str un')"
    using assms(5-) by (simp add: py_lower_joined)
  then show ?thesis
    by (simp add: generate_uuid_valid [OF assms(1,2)] generate_uuid_valid [OF assms(3,4)])
qed

theorem generate_uuid_case_invariant_witness:
  "generate_uuid ucd_excerpt (Some (ustr_of ''scm'')) (Some (ustr_of ''jsmith@example.com''))
      (Some (ustr_of ''John Smith'')) (Some (ustr_of ''jsmith''))
   = generate_uuid ucd_excerpt (Some (ustr_of ''scm'')) (Some (ustr_of ''JSMITH@EXAMPLE.COM''))
      (Some (ustr_of ''J'' @ [0xF6] @ ustr_of ''hn Smith'')) (Some (ustr_of ''JSMITH''))"
  by (rule generate_uuid_case_invariant) (simp_all add: uuid_eval)

lemma sha1_sigma:
  "sha1_hexdigest [115, 99, 109, 58, 110, 111, 110, 101, 58, 206, 177, 207, 131, 58, 98]
     = ''63fa98c6054807ec122bb66157f46e17da250f0d''"
  by (simp add: sha1_eval)

lemma sha1_final_sigma:
  "sha1_hexdigest [115, 99, 109, 58, 110, 111, 110, 101, 58, 206, 177, 207, 130, 58, 98]
     = ''28ef64c0d695c0e462c2344718f8e278a91d2d20''"
  by (simp add: sha1_eval)

text \<open>
  Claim C7 fails on the code. The names U+0391 U+03A3 (capital alpha, capital sigma) and
  U+03B1 U+03C2 (small alpha, final sigma) are the same word in upper and in lower case:
  \<open>str.lower\<close> maps both to the second. Inside the joined string the capital sigma is
  followed by a colon, which is case-ignorable, and then by a letter, so it is lowered
  to U+03C3 instead, and the two fingerprints differ.
\<close>

theorem generate_uuid_sigma_case:
  "py_lower ucd_excerpt [0x391, 0x3A3] = py_lower ucd_excerpt [0x3B1, 0x3C2]
   \<and> generate_uuid ucd_excerpt (Some (ustr_of ''scm'')) None (Some [0x391, 0x3A3])
        (Some (ustr_of ''b''))
       = Inr ''63fa98c6054807ec122bb66157f46e17da250f0d''
   \<and> generate_uuid ucd_excerpt (Some (ustr_of ''scm'')) None (Some [0x3B1, 0x3C2])
        (Some (ustr_of ''b''))
       = Inr ''28ef64c0d695c0e462c2344718f8e278a91d2d20''"
  using sha1_sigma sha1_final_sigma by (simp add: uuid_eval)

section \<open>The identity loop\<close>

subsection \<open>logger and merge: what they leave alone\<close>

lemma logger_info_fields [simp]:
  "identity_owner (logger_info w m) = identity_owner w"
  "is_locked (logger_info w m) = is_locked w"
  "organizations (logger_info w m) = organizations w"
  "enrolled (logger_info w m) = enrolled w"
  "merge_calls (logger_info w m) = merge_calls w"
  "log_lines (logger_info w m) = log_lines w @ [(INFO, m)]"
  by (simp_all add: logger_info_def)

lemma logger_warning_fields [simp]:
  "identity_owner (logger_warning w m) = identity_owner w"
  "is_locked (logger_warning w m) = is_locked w"
  "organizations (logger_warning w m) = organizations w"
  "enrolled (logger_warning w m) = enrolled w"
  "merge_calls (logger_warning w m) = merge_calls w"
  "log_lines (logger_warning w m) = log_lines w @ [(WARNING, m)]"
  by (simp_all add: logger_warning_def)

lemma merge_fields [simp]:
  "identity_owner (merge w srcs tgt) fp =
     (case identity_owner w fp of None \<Rightarrow> None
      | Some mk \<Rightarrow> Some (if mk \<in> set srcs then tgt else mk))"
  "is_locked (merge w srcs tgt) = is_locked w"
  "organizations (merge w srcs tgt) = organizations w"
  "enrolled (merge w srcs tgt) = enrolled w"
  "merge_calls (merge w srcs tgt) = merge_calls w @ [(srcs, tgt)]"
  "log_lines (merge w srcs tgt) = log_lines w"
  by (simp_all add: merge_def)

subsection \<open>One pass of the identity loop, case by case\<close>

lemma load_identity_invalid:
  assumes "fpf r = Inl e"
  shows "load_identity fpf r (w, uuid, n) = Inr (logger_warning w (str_of_error e), uuid, n)"
  using assms by (simp add: load_identity_def add_identity_def)

lemma uuid_or_simps [simp]:
  "uuid_or None x = x"
  "uuid_or (Some []) x = x"
  "u \<noteq> [] \<Longrightarrow> uuid_or (Some u) x = u"
  "uuid_or uuid (uuid_or uuid x) = uuid_or uuid x"
  "uuid_or (Some (uuid_or uuid x)) y = (if uuid_or uuid x = [] then y else uuid_or uuid x)"
  by (auto simp: uuid_or_def split: option.splits)

lemma load_identity_new:
  assumes "fpf r = Inr fp" and "identity_owner w fp = None"
  shows "load_identity fpf r (w, uuid, n) =
           Inr (w\<lparr>identity_owner := (identity_owner w)(fp \<mapsto> uuid_or uuid fp)\<rparr>,
                Some (uuid_or uuid fp), Suc n)"
  using assms by (simp add: load_identity_def add_identity_def Let_def)

lemma load_identity_stored:
  assumes "fpf r = Inr fp" and "identity_owner w fp = Some stored_uuid"
  shows "load_identity fpf r (w, uuid, n) =
           (if uuid_or uuid stored_uuid = stored_uuid then Inr (w, Some stored_uuid, n)
            else if is_locked w stored_uuid then
              Inr (logger_warning w (''Individual '' @ stored_uuid @ '' is locked. Not merging.''),
                   Some (uuid_or uuid stored_uuid), n)
            else
              Inr (merge (logger_info w (''Merging '' @ uuid_or uuid stored_uuid @ '' and '' @ stored_uuid))
                     [uuid_or uuid stored_uuid] stored_uuid,
                   Some stored_uuid, n))"
  using assms by (simp add: load_identity_def add_identity_def find_identity_def Let_def)

text \<open>
  Claim C1. While the identities of one individual are loaded: when there is a working
  \<open>uuid\<close> and the fingerprint of the next identity is stored under another individual
  that is not locked, the importer logs the merge, calls \<open>merge\<close> with the working
  individual as the only source and the stored individual as the target, so that every
  identity of the working individual now belongs to the stored one, and goes on through
  the remaining identities with the stored individual's \<open>mk\<close> as the working \<open>uuid\<close>.
\<close>

theorem merge_into_stored_individual:
  assumes "fpf identity = Inr fp"
    and "identity_owner w fp = Some stored_uuid"
    and "\<not> is_locked w stored_uuid"
    and "u \<noteq> []"
    and "u \<noteq> stored_uuid"
  shows "load_identities_from fpf (identity # rest) (w, Some u, n) =
           load_identities_from fpf rest
             (merge (logger_info w (''Merging '' @ u @ '' and '' @ stored_uuid)) [u] stored_uuid,
              Some stored_uuid, n)
         \<and> merge_calls (merge (logger_info w (''Merging '' @ u @ '' and '' @ stored_uuid)) [u] stored_uuid)
             = merge_calls w @ [([u], stored_uuid)]
         \<and> (\<forall>fp'. identity_owner
                    (merge (logger_info w (''Merging '' @ u @ '' and '' @ stored_uuid)) [u] stored_uuid) fp'
                 = (if identity_owner w fp' = Some u then Some stored_uuid
                    else identity_owner w fp'))"
  using assms by (auto simp: load_identity_stored uuid_or_def split: option.splits)

text \<open>
  Claim C8. When there is a working \<open>uuid\<close> and the fingerprint of the next identity is
  stored under another individual that is locked, the importer logs a warning, calls
  no \<open>merge\<close>, changes no owner, and goes on through the remaining identities with the
  working \<open>uuid\<close> as it was.
\<close>

theorem locked_individual_not_merged:
  assumes "fpf identity = Inr fp"
    and "identity_owner w fp = Some stored_uuid"
    and "is_locked w stored_uuid"
    and "u \<noteq> []"
    and "u \<noteq> stored_uuid"
  shows "load_identities_from fpf (identity # rest) (w, Some u, n) =
           load_identities_from fpf rest
             (logger_warning w (''Individual '' @ stored_uuid @ '' is locked. Not merging.''),
              Some u, n)
         \<and> identity_owner (logger_warning w (''Individual '' @ stored_uuid @ '' is locked. Not merging.''))
             = identity_owner w
         \<and> merge_calls (logger_warning w (''Individual '' @ stored_uuid @ '' is locked. Not merging.''))
             = merge_calls w
         \<and> log_lines (logger_warning w (''Individual '' @ stored_uuid @ '' is locked. Not merging.''))
             = log_lines w @ [(WARNING, ''Individual '' @ stored_uuid @ '' is locked. Not merging.'')]"
  using assms by (auto simp: load_identity_stored uuid_or_def)

subsection \<open>The loop never raises\<close>

lemma load_identity_total:
  "\<exists>w' uuid' n'. load_identity fpf r (w, uuid, n) = Inr (w', uuid', n')
      \<and> (uuid' = None \<longrightarrow> uuid = None \<and> n' = n)
      \<and> n \<le> n'"
proof (cases "fpf r")
  case (Inl e)
  then show ?thesis by (simp add: load_identity_invalid)
next
  case (Inr fp)
  then show ?thesis
    by (cases "identity_owner w fp") (simp_all add: load_identity_new load_identity_stored)
qed

lemma load_identities_from_total:
  "\<exists>uuid' n' w'. load_identities_from fpf ids (w, uuid, n) = (Inr (uuid', n'), w')
      \<and> (uuid' = None \<longrightarrow> uuid = None \<and> n' = n)"
proof (induction ids arbitrary: w uuid n)
  case Nil
  then show ?case by simp
next
  case (Cons r ids)
  obtain w1 uuid1 n1 where step: "load_identity fpf r (w, uuid, n) = Inr (w1, uuid1, n1)"
    and keep: "uuid1 = None \<longrightarrow> uuid = None \<and> n1 = n"
    using load_identity_total [of fpf r w uuid n] by blast
  from Cons.IH [of w1 uuid1 n1] obtain uuid' n' w'
    where rest: "load_identities_from fpf ids (w1, uuid1, n1) = (Inr (uuid', n'), w')"
      and keep': "uuid' = None \<longrightarrow> uuid1 = None \<and> n' = n1"
    by blast
  from step rest keep keep' show ?case by simp
qed

text \<open>
  Claim C10. The identity loop returns, for every list of identities and every state of
  the registry, a pair of the working \<open>uuid\<close> and the number of identities created; when
  the \<open>uuid\<close> is \<open>None\<close> the number is 0.
\<close>

theorem load_identities_no_uuid_no_count:
  "\<exists>uuid n w'. load_identities fpf ids w = (Inr (uuid, n), w') \<and> (uuid = None \<longrightarrow> n = 0)"
  using load_identities_from_total [of fpf ids w None 0]
  by (auto simp: load_identities_def)


subsection \<open>Evaluating the importer on concrete registries\<close>

lemmas load_eval = load_def load_identities_def load_identity_def add_identity_def
  find_identity_def load_enrollments_if_def ensure_organization_def add_organization_def
  enroll_def Let_def empty_world_def two_individuals_def first_locked_def second_locked_def
  fingerprint_examples

theorem merge_into_stored_individual_witness:
  "identity_fingerprint ucd_excerpt id_b = Inr fp_b
   \<and> identity_owner two_individuals fp_b = Some fp_b
   \<and> \<not> is_locked two_individuals fp_b \<and> fp_a \<noteq> [] \<and> fp_a \<noteq> fp_b
   \<and> fst (load_identities_from (identity_fingerprint ucd_excerpt) [id_b]
             (two_individuals, Some fp_a, 0)) = Inr (Some fp_b, 0)
   \<and> identity_owner (snd (load_identities_from (identity_fingerprint ucd_excerpt) [id_b]
             (two_individuals, Some fp_a, 0))) fp_a = Some fp_b
   \<and> merge_calls (snd (load_identities_from (identity_fingerprint ucd_excerpt) [id_b]
             (two_individuals, Some fp_a, 0))) = [([fp_a], fp_b)]"
proof -
  have h: "identity_fingerprint ucd_excerpt id_b = Inr fp_b"
    "identity_owner two_individuals fp_b = Some fp_b"
    "\<not> is_locked two_individuals fp_b" "fp_a \<noteq> []" "fp_a \<noteq> fp_b"
    by (simp_all add: load_eval)
  from merge_into_stored_individual
    [of "identity_fingerprint ucd_excerpt" id_b fp_b two_individuals fp_b fp_a "[]" 0, OF h] h
  show ?thesis by (simp add: load_eval)
qed

theorem locked_individual_not_merged_witness:
  "identity_fingerprint ucd_excerpt id_b = Inr fp_b
   \<and> identity_owner second_locked fp_b = Some fp_b
   \<and> is_locked second_locked fp_b \<and> fp_a \<noteq> [] \<and> fp_a \<noteq> fp_b
   \<and> fst (load_identities_from (identity_fingerprint ucd_excerpt) [id_b]
             (second_locked, Some fp_a, 0)) = Inr (Some fp_a, 0)
   \<and> identity_owner (snd (load_identities_from (identity_fingerprint ucd_excerpt) [id_b]
             (second_locked, Some fp_a, 0))) fp_a = Some fp_a
   \<and> merge_calls (snd (load_identities_from (identity_fingerprint ucd_excerpt) [id_b]
             (second_locked, Some fp_a, 0))) = []
   \<and> log_lines (snd (load_identities_from (identity_fingerprint ucd_excerpt) [id_b]
             (second_locked, Some fp_a, 0)))
       = [(WARNING, ''Individual '' @ fp_b @ '' is locked. Not merging.'')]"
proof -
  have h: "identity_fingerprint ucd_excerpt id_b = Inr fp_b"
    "identity_owner second_locked fp_b = Some fp_b"
    "is_locked second_locked fp_b" "fp_a \<noteq> []" "fp_a \<noteq> fp_b"
    by (simp_all add: load_eval)
  from locked_individual_not_merged
    [of "identity_fingerprint ucd_excerpt" id_b fp_b second_locked fp_b fp_a "[]" 0, OF h] h
  show ?thesis by (simp add: load_eval)
qed

theorem load_identities_no_uuid_no_count_witness:
  "fst (load_identities (identity_fingerprint ucd_excerpt) [id_nosource] empty_world)
     = Inr (None, 0)"
  using load_identities_no_uuid_no_count
    [of "identity_fingerprint ucd_excerpt" "[id_nosource]" empty_world]
  by (simp add: load_eval)

section \<open>Locks and merges\<close>

lemma merges_spare_locked_refl: "merges_spare_locked w w"
  by (simp add: merges_spare_locked_def)

lemma merges_spare_locked_trans:
  assumes "merges_spare_locked w w1" and "merges_spare_locked w1 w2"
  shows "merges_spare_locked w w2"
proof -
  from assms(1) obtain c1 where l1: "is_locked w1 = is_locked w"
    and m1: "merge_calls w1 = merge_calls w @ c1"
    and g1: "\<forall>c\<in>set c1. length (fst c) = 1 \<and> snd c \<notin> set (fst c) \<and> \<not> is_locked w (snd c)"
    by (auto simp: merges_spare_locked_def)
  from assms(2) obtain c2 where l2: "is_locked w2 = is_locked w1"
    and m2: "merge_calls w2 = merge_calls w1 @ c2"
    and g2: "\<forall>c\<in>set c2. length (fst c) = 1 \<and> snd c \<notin> set (fst c) \<and> \<not> is_locked w1 (snd c)"
    by (auto simp: merges_spare_locked_def)
  have m: "merge_calls w2 = merge_calls w @ (c1 @ c2)"
    using m1 m2 by simp
  have g: "\<forall>c\<in>set (c1 @ c2). length (fst c) = 1 \<and> snd c \<notin> set (fst c) \<and> \<not> is_locked w (snd c)"
    using g1 g2 l1 by auto
  have l: "is_locked w2 = is_locked w"
    using l1 l2 by simp
  show ?thesis
    unfolding merges_spare_locked_def
  proof (intro conjI exI)
    show "is_locked w2 = is_locked w" by (rule l)
    show "merge_calls w2 = merge_calls w @ (c1 @ c2)" by (rule m)
    show "\<forall>c\<in>set (c1 @ c2). length (fst c) = 1 \<and> snd c \<notin> set (fst c) \<and> \<not> is_locked w (snd c)"
      by (rule g)
  qed
qed

lemma merges_spare_locked_same:
  assumes "is_locked w' = is_locked w" and "merge_calls w' = merge_calls w"
  shows "merges_spare_locked w w'"
  using assms by (simp add: merges_spare_locked_def)

lemma load_identity_spares_locked:
  assumes "load_identity fpf r (w, uuid, n) = Inr (w', uuid', n')"
  shows "merges_spare_locked w w'"
proof (cases "fpf r")
  case (Inl e)
  with assms show ?thesis
    by (auto simp: load_identity_invalid intro: merges_spare_locked_same)
next
  case (Inr fp)
  show ?thesis
  proof (cases "identity_owner w fp")
    case None
    with Inr assms show ?thesis
      by (auto simp: load_identity_new intro: merges_spare_locked_same)
  next
    case (Some stored_uuid)
    with Inr assms show ?thesis
      by (auto simp: load_identity_stored merges_spare_locked_def split: if_splits)
  qed
qed

lemma load_identities_from_spares_locked:
  "merges_spare_locked w (snd (load_identities_from fpf ids (w, uuid, n)))"
proof (induction ids arbitrary: w uuid n)
  case Nil
  then show ?case by (simp add: merges_spare_locked_refl)
next
  case (Cons r ids)
  obtain w1 uuid1 n1 where step: "load_identity fpf r (w, uuid, n) = Inr (w1, uuid1, n1)"
    using load_identity_total [of fpf r w uuid n] by blast
  have "merges_spare_locked w w1"
    using step by (rule load_identity_spares_locked)
  moreover have "merges_spare_locked w1 (snd (load_identities_from fpf ids (w1, uuid1, n1)))"
    by (rule Cons.IH)
  ultimately show ?case
    using step by (auto intro: merges_spare_locked_trans)
qed

lemma ensure_organization_frame:
  assumes "ensure_organization w org = Inr w1"
  shows "is_locked w1 = is_locked w" "merge_calls w1 = merge_calls w"
    "identity_owner w1 = identity_owner w" "enrolled w1 = enrolled w"
    "organizations w1 = insert org (organizations w)"
  using assms
  by (auto simp: ensure_organization_def add_organization_def split: if_splits)

lemma ensure_organization_total:
  "ensure_organization w org = Inr (w\<lparr>organizations := insert org (organizations w)\<rparr>)"
  by (auto simp: ensure_organization_def add_organization_def insert_absorb)

lemma enroll_frame:
  assumes "enroll w uuid org f t = Inr w1"
  shows "is_locked w1 = is_locked w" "merge_calls w1 = merge_calls w"
    "identity_owner w1 = identity_owner w" "organizations w1 = organizations w"
    "enrolled w1 = insert (uuid, org, f, t) (enrolled w)"
  using assms by (auto simp: enroll_def split: if_splits)

lemma load_enrollments_frame:
  "is_locked (snd (load_enrollments lo hi es u w)) = is_locked w
   \<and> merge_calls (snd (load_enrollments lo hi es u w)) = merge_calls w
   \<and> identity_owner (snd (load_enrollments lo hi es u w)) = identity_owner w"
proof (induction es arbitrary: w)
  case Nil
  then show ?case by simp
next
  case (Cons e es)
  let ?w1 = "w\<lparr>organizations := insert (organization_name e) (organizations w)\<rparr>"
  show ?case
  proof (cases "enroll ?w1 u (organization_name e) (max lo (start_date e)) (min hi (end_date e))")
    case (Inl err)
    then show ?thesis
      by (cases err) (simp_all add: ensure_organization_total Let_def Cons.IH)
  next
    case (Inr w2)
    then show ?thesis
      using enroll_frame [OF Inr]
      by (simp add: ensure_organization_total Let_def Cons.IH)
  qed
qed

lemma load_enrollments_if_frame:
  "is_locked (snd (load_enrollments_if lo hi es uuid w)) = is_locked w
   \<and> merge_calls (snd (load_enrollments_if lo hi es uuid w)) = merge_calls w
   \<and> identity_owner (snd (load_enrollments_if lo hi es uuid w)) = identity_owner w"
  by (simp add: load_enrollments_if_def load_enrollments_frame split: option.splits)

lemma load_from_spares_locked:
  "merges_spare_locked w (snd (load_from fpf lo hi cs w ntotal))"
proof (induction cs arbitrary: w ntotal)
  case Nil
  then show ?case by (simp add: merges_spare_locked_refl)
next
  case (Cons c cs)
  obtain uuid n w1 where ids: "load_identities fpf (identities c) w = (Inr (uuid, n), w1)"
    using load_identities_from_total [of fpf "identities c" w None 0]
    by (auto simp: load_identities_def)
  have a: "merges_spare_locked w w1"
    using load_identities_from_spares_locked [of w fpf "identities c" None 0] ids
    by (simp add: load_identities_def)
  obtain r w2 where enr: "load_enrollments_if lo hi (enrollments c) uuid w1 = (r, w2)"
    by (cases "load_enrollments_if lo hi (enrollments c) uuid w1") auto
  have b: "merges_spare_locked w1 w2"
    using load_enrollments_if_frame [of lo hi "enrollments c" uuid w1] enr
    by (auto intro: merges_spare_locked_same)
  have ab: "merges_spare_locked w w2"
    using a b by (rule merges_spare_locked_trans)
  show ?case
  proof (cases r)
    case (Inl e)
    with ids enr ab show ?thesis by simp
  next
    case (Inr x)
    have "merges_spare_locked w2 (snd (load_from fpf lo hi cs w2 (ntotal + n)))"
      by (rule Cons.IH)
    with ab have "merges_spare_locked w (snd (load_from fpf lo hi cs w2 (ntotal + n)))"
      by (rule merges_spare_locked_trans)
    with Inr ids enr show ?thesis by simp
  qed
qed

text \<open>
  Claim C2, as amended. Through a whole run of \<open>load\<close>, on any individuals and from any
  state of the registry, no lock changes, and every call of \<open>merge\<close> has exactly one
  source and a target that is another individual and is not locked: a locked individual
  is never the target of a merge.
\<close>

theorem merge_target_never_locked:
  "is_locked (snd (load fpf lo hi cs w)) = is_locked w
   \<and> (\<exists>calls. merge_calls (snd (load fpf lo hi cs w)) = merge_calls w @ calls
         \<and> (\<forall>c\<in>set calls. length (fst c) = 1 \<and> snd c \<notin> set (fst c)
                             \<and> \<not> is_locked w (snd c)))"
proof -
  let ?w0 = "logger_info w ''Loading individuals''"
  have "merges_spare_locked ?w0 (snd (load_from fpf lo hi cs ?w0 0))"
    by (rule load_from_spares_locked)
  moreover have "merges_spare_locked (snd (load_from fpf lo hi cs ?w0 0)) (snd (load fpf lo hi cs w))"
    by (auto simp: load_def split: prod.splits sum.splits intro: merges_spare_locked_same merges_spare_locked_refl)
  ultimately have "merges_spare_locked ?w0 (snd (load fpf lo hi cs w))"
    by (rule merges_spare_locked_trans)
  then show ?thesis
    by (simp add: merges_spare_locked_def)
qed

theorem merge_target_never_locked_witness:
  "\<not> is_locked two_individuals fp_b
   \<and> merge_calls (snd (load (identity_fingerprint ucd_excerpt) 0 10
        [\<lparr>identities = [id_a, id_b], enrollments = []\<rparr>] two_individuals)) = [([fp_a], fp_b)]"
  using merge_target_never_locked [of "identity_fingerprint ucd_excerpt" 0 10
      "[\<lparr>identities = [id_a, id_b], enrollments = []\<rparr>]" two_individuals]
  by (simp add: load_eval)

text \<open>
  The claim as stated fails: the source of a merge can be locked. With \<open>id_a\<close> stored
  under a locked individual and \<open>id_b\<close> under an unlocked one, an individual with the
  identities \<open>id_a\<close>, \<open>id_b\<close> adopts the locked individual as its working \<open>uuid\<close> and
  then merges it into the other.
\<close>

theorem locked_source_merged_counterexample:
  "is_locked first_locked fp_a
   \<and> merge_calls (snd (load (identity_fingerprint ucd_excerpt) 0 10
        [\<lparr>identities = [id_a, id_b], enrollments = []\<rparr>] first_locked)) = [([fp_a], fp_b)]
   \<and> identity_owner (snd (load (identity_fingerprint ucd_excerpt) 0 10
        [\<lparr>identities = [id_a, id_b], enrollments = []\<rparr>] first_locked)) fp_a = Some fp_b"
  by (simp add: load_eval)

section \<open>Enrollments\<close>

lemma load_enrollments_step:
  "load_enrollments lo hi (e # es) u w =
     (let w1 = w\<lparr>organizations := insert (organization_name e) (organizations w)\<rparr>;
          f = max lo (start_date e); t = min hi (end_date e)
      in if f > t then (Inl (LoadError ''start date cannot be greater than end date''), w1)
         else load_enrollments lo hi es u
                (w1\<lparr>enrolled := insert (u, organization_name e, f, t) (enrolled w1)\<rparr>))"
  by (auto simp: ensure_organization_total enroll_def Let_def insert_absorb)

lemma load_enrollments_append:
  assumes "load_enrollments lo hi pre u w = (Inr (), wa)"
  shows "load_enrollments lo hi (pre @ post) u w = load_enrollments lo hi post u wa"
  using assms
proof (induction pre arbitrary: w)
  case Nil
  then show ?case by simp
next
  case (Cons e pre)
  from Cons.prems show ?case
    by (simp only: load_enrollments_step append_Cons Let_def split: if_splits)
      (auto intro: Cons.IH)
qed

text \<open>
  Claim C3, as amended. When \<open>enroll\<close> raises \<open>ValueError\<close> or \<open>NotFoundError\<close> for an
  enrollment of an individual, \<open>__load_enrollments\<close> raises \<open>LoadError\<close> with the same
  message and the individual's remaining enrollments are not applied; \<open>load\<close> does not
  catch it, so the loop over the individuals ends there with the \<open>LoadError\<close>, in the
  state reached at the failing enrollment: the remaining individuals are not processed
  and no total is returned.
\<close>

theorem enrollment_failure_aborts_load:
  assumes "load_identities fpf (identities c) w = (Inr (Some u, n), w1)" and "u \<noteq> []"
    and "enrollments c = pre @ e # post"
    and "load_enrollments lo hi pre u w1 = (Inr (), wa)"
    and "ensure_organization wa (organization_name e) = Inr wb"
    and "enroll wb u (organization_name e) (max lo (start_date e)) (min hi (end_date e)) = Inl err"
    and "err = ValueError m \<or> err = NotFoundError m"
  shows "load_enrollments lo hi (enrollments c) u w1 = (Inl (LoadError m), wb)
         \<and> load_from fpf lo hi (c # rest) w ntotal = (Inl (LoadError m), wb)"
proof -
  have "load_enrollments lo hi (e # post) u wa = (Inl (LoadError m), wb)"
    using assms(5,6,7) by (auto simp: Let_def)
  then have enr: "load_enrollments lo hi (enrollments c) u w1 = (Inl (LoadError m), wb)"
    using load_enrollments_append [OF assms(4), of "e # post"] assms(3) by simp
  then show ?thesis
    using assms(1,2) by (simp add: load_enrollments_if_def)
qed

theorem enrollment_failure_aborts_load_witness:
  "load_identities (identity_fingerprint ucd_excerpt) [id_a] empty_world
     = (Inr (Some fp_a, 1), empty_world\<lparr>identity_owner := [fp_a \<mapsto> fp_a]\<rparr>)
   \<and> fp_a \<noteq> []
   \<and> fst (load_from (identity_fingerprint ucd_excerpt) 0 10
        [\<lparr>identities = [id_a], enrollments = [bad_period]\<rparr>,
         \<lparr>identities = [id_b], enrollments = []\<rparr>] empty_world 0)
       = Inl (LoadError ''start date cannot be greater than end date'')
   \<and> identity_owner (snd (load_from (identity_fingerprint ucd_excerpt) 0 10
        [\<lparr>identities = [id_a], enrollments = [bad_period]\<rparr>,
         \<lparr>identities = [id_b], enrollments = []\<rparr>] empty_world 0)) fp_b = None"
proof -
  let ?c = "\<lparr>identities = [id_a], enrollments = [bad_period]\<rparr>"
  let ?w1 = "empty_world\<lparr>identity_owner := [fp_a \<mapsto> fp_a]\<rparr>"
  let ?wb = "?w1\<lparr>organizations := insert ''Example'' (organizations ?w1)\<rparr>"
  have 1: "load_identities (identity_fingerprint ucd_excerpt) (identities ?c) empty_world
             = (Inr (Some fp_a, 1), ?w1)"
    by (simp add: load_eval)
  have 2: "fp_a \<noteq> []" by (simp add: fp_distinct)
  have 3: "enrollments ?c = [] @ bad_period # []" by simp
  have 4: "load_enrollments 0 10 [] fp_a ?w1 = (Inr (), ?w1)" by simp
  have 5: "ensure_organization ?w1 (organization_name bad_period) = Inr ?wb"
    by (simp add: ensure_organization_total bad_period_def)
  have 6: "enroll ?wb fp_a (organization_name bad_period) (max 0 (start_date bad_period))
             (min 10 (end_date bad_period))
           = Inl (ValueError ''start date cannot be greater than end date'')"
    by (simp add: enroll_def bad_period_def empty_world_def)
  have 7: "ValueError ''start date cannot be greater than end date''
             = ValueError ''start date cannot be greater than end date''
           \<or> ValueError ''start date cannot be greater than end date''
             = NotFoundError ''start date cannot be greater than end date''"
    by simp
  have r: "load_from (identity_fingerprint ucd_excerpt) 0 10
             (?c # [\<lparr>identities = [id_b], enrollments = []\<rparr>]) empty_world 0
           = (Inl (LoadError ''start date cannot be greater than end date''), ?wb)"
    using enrollment_failure_aborts_load [OF 1 2 3 4 5 6 7,
      of "[\<lparr>identities = [id_b], enrollments = []\<rparr>]" 0]
    by (rule conjunct2)
  have 8: "load_identities (identity_fingerprint ucd_excerpt) [id_a] empty_world
             = (Inr (Some fp_a, 1), ?w1)"
    using 1 by simp
  show ?thesis
    unfolding r 8 by (simp add: fp_distinct empty_world_def)
qed

text \<open>
  The claim as stated fails: after the \<open>LoadError\<close> of the first individual the second
  one is never loaded.
\<close>

theorem load_error_stops_batch_counterexample:
  "fst (load (identity_fingerprint ucd_excerpt) 0 10
        [\<lparr>identities = [id_a], enrollments = [bad_period]\<rparr>,
         \<lparr>identities = [id_b], enrollments = []\<rparr>] empty_world)
     = Inl (LoadError ''start date cannot be greater than end date'')
   \<and> identity_owner (snd (load (identity_fingerprint ucd_excerpt) 0 10
        [\<lparr>identities = [id_a], enrollments = [bad_period]\<rparr>,
         \<lparr>identities = [id_b], enrollments = []\<rparr>] empty_world)) fp_a = Some fp_a
   \<and> identity_owner (snd (load (identity_fingerprint ucd_excerpt) 0 10
        [\<lparr>identities = [id_a], enrollments = [bad_period]\<rparr>,
         \<lparr>identities = [id_b], enrollments = []\<rparr>] empty_world)) fp_b = None"
  by (simp add: load_eval bad_period_def)

section \<open>The period of an enrollment\<close>


lemma load_enrollments_accepts:
  assumes "\<forall>e\<in>set es. max lo (start_date e) \<le> min hi (end_date e)"
  shows "load_enrollments lo hi es u w =
           (Inr (), w\<lparr>organizations := organizations w \<union> organization_name ` set es,
                      enrolled := enrolled w \<union>
                        (\<lambda>e. (u, organization_name e, max lo (start_date e), min hi (end_date e))) ` set es\<rparr>)"
  using assms
proof (induction es arbitrary: w)
  case Nil
  then show ?case by simp
next
  case (Cons e es)
  have ok: "\<not> min hi (end_date e) < max lo (start_date e)"
    using Cons.prems by (simp add: not_less)
  have rest: "\<forall>e\<in>set es. max lo (start_date e) \<le> min hi (end_date e)"
    using Cons.prems by simp
  show ?case
    using ok by (simp only: load_enrollments_step Let_def Cons.IH [OF rest]) auto
qed

text \<open>
  Claim C9, as amended. Every enrollment is passed to the registry with the later of
  \<open>MIN_PERIOD_DATE\<close> and its start as start and the earlier of \<open>MAX_PERIOD_DATE\<close> and its
  end as end. Where these clamped periods are ordered, all the enrollments are stored,
  each with exactly its clamped period. An enrollment whose clamped period starts after
  it ends (one that lies before \<open>MIN_PERIOD_DATE\<close> or after \<open>MAX_PERIOD_DATE\<close> altogether,
  or starts after it ends) is not stored: it is rejected with \<open>LoadError\<close>.
\<close>

theorem enrollment_period_clamped:
  "((\<forall>e\<in>set es. max lo (start_date e) \<le> min hi (end_date e)) \<longrightarrow>
      fst (load_enrollments lo hi es u w) = Inr ()
      \<and> enrolled (snd (load_enrollments lo hi es u w)) =
          enrolled w \<union> (\<lambda>e. (u, organization_name e, max lo (start_date e),
                                 min hi (end_date e))) ` set es)
   \<and> (min hi (end_date e) < max lo (start_date e) \<longrightarrow>
      fst (load_enrollments lo hi (e # rest) u w)
        = Inl (LoadError ''start date cannot be greater than end date'')
      \<and> enrolled (snd (load_enrollments lo hi (e # rest) u w)) = enrolled w)"
proof (intro conjI impI)
  assume ok: "\<forall>e\<in>set es. max lo (start_date e) \<le> min hi (end_date e)"
  show "fst (load_enrollments lo hi es u w) = Inr ()"
    by (simp add: load_enrollments_accepts [OF ok])
  show "enrolled (snd (load_enrollments lo hi es u w)) =
          enrolled w \<union> (\<lambda>e. (u, organization_name e, max lo (start_date e),
                                 min hi (end_date e))) ` set es"
    by (simp add: load_enrollments_accepts [OF ok])
next
  assume bad: "min hi (end_date e) < max lo (start_date e)"
  have "load_enrollments lo hi (e # rest) u w =
          (Inl (LoadError ''start date cannot be greater than end date''),
           w\<lparr>organizations := insert (organization_name e) (organizations w)\<rparr>)"
    using bad by (simp only: load_enrollments_step Let_def) simp
  then show "fst (load_enrollments lo hi (e # rest) u w)
        = Inl (LoadError ''start date cannot be greater than end date'')"
    and "enrolled (snd (load_enrollments lo hi (e # rest) u w)) = enrolled w"
    by simp_all
qed

theorem enrollment_period_clamped_witness:
  "max 100 (start_date early_period) \<le> min 200 (end_date early_period)
   \<and> fst (load_enrollments 100 200 [early_period] fp_a empty_world) = Inr ()
   \<and> enrolled (snd (load_enrollments 100 200 [early_period] fp_a empty_world))
       = {(fp_a, ''Example'', 100, 150)}
   \<and> min 200 (end_date before_range) < max 100 (start_date before_range)
   \<and> fst (load_enrollments 100 200 [before_range] fp_a empty_world)
       = Inl (LoadError ''start date cannot be greater than end date'')
   \<and> enrolled (snd (load_enrollments 100 200 [before_range] fp_a empty_world)) = {}"
  using enrollment_period_clamped [of "[early_period]" 100 200 fp_a empty_world before_range "[]"]
  by (simp add: early_period_def before_range_def empty_world_def)

text \<open>
  The claim as stated fails: an enrollment from 10 to 20 under the limits 100 and 200
  starts before the lower limit; it is not stored from 100 on but rejected.
\<close>

theorem enrollment_rejected_counterexample:
  "start_date before_range < 100
   \<and> fst (load_enrollments 100 200 [before_range] fp_a empty_world)
       = Inl (LoadError ''start date cannot be greater than end date'')
   \<and> enrolled (snd (load_enrollments 100 200 [before_range] fp_a empty_world)) = {}"
  by (simp add: before_range_def empty_world_def ensure_organization_total enroll_def)

section \<open>Importing the same individuals twice\<close>

subsection \<open>Identities that stay together\<close>

lemma keeps_together_refl: "keeps_together w w"
  by (auto simp: keeps_together_def)

lemma keeps_together_trans:
  "keeps_together w w1 \<Longrightarrow> keeps_together w1 w2 \<Longrightarrow> keeps_together w w2"
  unfolding keeps_together_def by metis

lemma keeps_together_same:
  "identity_owner w' = identity_owner w \<Longrightarrow> keeps_together w w'"
  by (auto simp: keeps_together_def)

lemma together_kept:
  assumes "together w fps" and "keeps_together w w'"
  shows "together w' fps"
proof (cases fps)
  case Nil
  then show ?thesis by (simp add: together_def owned_by_def)
next
  case (Cons d ds)
  from assms(1) obtain m where m: "\<forall>x\<in>set fps. identity_owner w x = Some m"
    by (auto simp: together_def owned_by_def)
  then have d: "identity_owner w d = Some m" using Cons by simp
  from assms(2) d obtain m' where m': "identity_owner w' d = Some m'"
    unfolding keeps_together_def by blast
  have "\<forall>x\<in>set fps. identity_owner w' x = Some m'"
  proof
    fix x assume "x \<in> set fps"
    with m have "identity_owner w x = Some m" by simp
    with assms(2) d obtain k where "identity_owner w' d = Some k" "identity_owner w' x = Some k"
      unfolding keeps_together_def by blast
    with m' show "identity_owner w' x = Some m'" by simp
  qed
  then show ?thesis by (auto simp: together_def owned_by_def)
qed

subsection \<open>One pass of the identity loop\<close>

lemma load_identity_keeps_together:
  assumes "load_identity fpf r (w, uuid, n) = Inr (w', uuid', n')"
  shows "keeps_together w w'"
proof (cases "fpf r")
  case (Inl e)
  with assms show ?thesis
    by (auto simp: load_identity_invalid intro: keeps_together_same)
next
  case (Inr fp)
  show ?thesis
  proof (cases "identity_owner w fp")
    case None
    with Inr assms have "identity_owner w' = (identity_owner w)(fp \<mapsto> uuid_or uuid fp)"
      by (auto simp: load_identity_new)
    with None show ?thesis
      by (auto simp: keeps_together_def)
  next
    case (Some s)
    with Inr assms show ?thesis
      by (auto simp: load_identity_stored keeps_together_def split: if_splits)
  qed
qed

text \<open>The identities stored and the number created.\<close>

lemma load_identity_dom_count:
  assumes "load_identity fpf r (w, uuid, n) = Inr (w', uuid', n')"
  shows "dom (identity_owner w') = dom (identity_owner w) \<union> set (valid_fingerprints fpf [r])
         \<and> n' = n + card (set (valid_fingerprints fpf [r]) - dom (identity_owner w))"
proof (cases "fpf r")
  case (Inl e)
  with assms show ?thesis
    by (auto simp: load_identity_invalid)
next
  case (Inr fp)
  show ?thesis
  proof (cases "identity_owner w fp")
    case None
    then have "{fp} - dom (identity_owner w) = {fp}"
      by (auto simp: domIff)
    with None Inr assms show ?thesis
      by (auto simp: load_identity_new)
  next
    case (Some s)
    have "dom (identity_owner w') = dom (identity_owner w)"
      using Some Inr assms
      by (auto simp: load_identity_stored dom_def split: if_splits option.splits)
    moreover have "n' = n"
      using Some Inr assms by (auto simp: load_identity_stored split: if_splits)
    moreover have "set (valid_fingerprints fpf [r]) - dom (identity_owner w) = {}"
      using Some Inr by auto
    ultimately show ?thesis using Some Inr by auto
  qed
qed

lemma valid_fingerprints_Cons:
  "set (valid_fingerprints fpf (r # rs)) = set (valid_fingerprints fpf [r]) \<union> set (valid_fingerprints fpf rs)"
  by (auto split: sum.splits)

lemma card_diff_split:
  assumes "finite A" and "finite B"
  shows "card (A - D) + card (B - (D \<union> A)) = card ((A \<union> B) - D)"
proof -
  have "(A \<union> B) - D = (A - D) \<union> (B - (D \<union> A))" by auto
  moreover have "(A - D) \<inter> (B - (D \<union> A)) = {}" by auto
  ultimately show ?thesis
    using assms by (simp add: card_Un_disjoint)
qed

lemma load_identities_from_dom_count:
  assumes "load_identities_from fpf ids (w, uuid, n) = (Inr (uuid', n'), w')"
  shows "dom (identity_owner w') = dom (identity_owner w) \<union> set (valid_fingerprints fpf ids)
         \<and> n' = n + card (set (valid_fingerprints fpf ids) - dom (identity_owner w))"
  using assms
proof (induction ids arbitrary: w uuid n)
  case Nil
  then show ?case by simp
next
  case (Cons r ids)
  obtain w1 uuid1 n1 where step: "load_identity fpf r (w, uuid, n) = Inr (w1, uuid1, n1)"
    using load_identity_total [of fpf r w uuid n] by blast
  from load_identity_dom_count [OF step]
  have d1: "dom (identity_owner w1) = dom (identity_owner w) \<union> set (valid_fingerprints fpf [r])"
    and c1: "n1 = n + card (set (valid_fingerprints fpf [r]) - dom (identity_owner w))"
    by simp_all
  from Cons.prems step have rest: "load_identities_from fpf ids (w1, uuid1, n1) = (Inr (uuid', n'), w')"
    by simp
  from Cons.IH [OF rest]
  have d2: "dom (identity_owner w') = dom (identity_owner w1) \<union> set (valid_fingerprints fpf ids)"
    and c2: "n' = n1 + card (set (valid_fingerprints fpf ids) - dom (identity_owner w1))"
    by simp_all
  have "card (set (valid_fingerprints fpf [r]) - dom (identity_owner w))
        + card (set (valid_fingerprints fpf ids) - (dom (identity_owner w) \<union> set (valid_fingerprints fpf [r])))
        = card ((set (valid_fingerprints fpf [r]) \<union> set (valid_fingerprints fpf ids)) - dom (identity_owner w))"
    by (rule card_diff_split) simp_all
  with c1 c2 d1 have "n' = n + card (set (valid_fingerprints fpf (r # ids)) - dom (identity_owner w))"
    unfolding valid_fingerprints_Cons [of fpf r ids] by simp
  moreover have "dom (identity_owner w') = dom (identity_owner w) \<union> set (valid_fingerprints fpf (r # ids))"
    using d1 d2 unfolding valid_fingerprints_Cons [of fpf r ids] by auto
  ultimately show ?case by simp
qed

lemma load_identity_working:
  assumes fp: "nonempty_fingerprints fpf"
    and sound: "sound_registry w"
    and work: "working w uuid P"
    and step: "load_identity fpf r (w, uuid, n) = Inr (w', uuid', n')"
  shows "sound_registry w' \<and> working w' uuid' (P \<union> set (valid_fingerprints fpf [r]))"
proof (cases "fpf r")
  case (Inl e)
  with step have "w' = logger_warning w (str_of_error e)" "uuid' = uuid"
    by (auto simp: load_identity_invalid)
  with Inl sound work show ?thesis
    by (auto simp: sound_registry_def working_def owned_by_def)
next
  case (Inr fp)
  have fp_ne: "fp \<noteq> []"
    using fp Inr by (auto simp: nonempty_fingerprints_def)
  show ?thesis
  proof (cases "identity_owner w fp")
    case None
    with Inr step have w': "w' = w\<lparr>identity_owner := (identity_owner w)(fp \<mapsto> uuid_or uuid fp)\<rparr>"
      and u': "uuid' = Some (uuid_or uuid fp)"
      by (auto simp: load_identity_new)
    from work show ?thesis
      unfolding working_def
    proof (elim disjE conjE exE)
      assume "uuid = None" "P = {}"
      with w' u' Inr fp_ne sound show "sound_registry w' \<and>
        ((uuid' = None \<and> P \<union> set (valid_fingerprints fpf [r]) = {})
         \<or> (\<exists>u. uuid' = Some u \<and> u \<noteq> [] \<and> owned_by w' (P \<union> set (valid_fingerprints fpf [r])) u))"
        by (auto simp: sound_registry_def owned_by_def)
    next
      fix u assume u: "uuid = Some u" "u \<noteq> []" "owned_by w P u"
      then have "\<forall>d\<in>P. d \<noteq> fp" using None by (auto simp: owned_by_def)
      with u w' u' Inr sound show "sound_registry w' \<and>
        ((uuid' = None \<and> P \<union> set (valid_fingerprints fpf [r]) = {})
         \<or> (\<exists>u. uuid' = Some u \<and> u \<noteq> [] \<and> owned_by w' (P \<union> set (valid_fingerprints fpf [r])) u))"
        by (auto simp: sound_registry_def owned_by_def)
    qed
  next
    case (Some s)
    have s_ne: "s \<noteq> []" using sound Some by (auto simp: sound_registry_def)
    have unlocked: "\<not> is_locked w s" using sound by (auto simp: sound_registry_def)
    from work show ?thesis
      unfolding working_def
    proof (elim disjE conjE exE)
      assume none: "uuid = None" "P = {}"
      with Some Inr step have w': "w' = w" and u': "uuid' = Some s"
        by (auto simp: load_identity_stored)
      have "owned_by w' (P \<union> set (valid_fingerprints fpf [r])) s"
        using none Some Inr unfolding w' owned_by_def by auto
      with sound s_ne show "sound_registry w' \<and>
        ((uuid' = None \<and> P \<union> set (valid_fingerprints fpf [r]) = {})
         \<or> (\<exists>u. uuid' = Some u \<and> u \<noteq> [] \<and> owned_by w' (P \<union> set (valid_fingerprints fpf [r])) u))"
        unfolding w' u' by blast
    next
      fix u assume u: "uuid = Some u" "u \<noteq> []" "owned_by w P u"
      show "sound_registry w' \<and>
        ((uuid' = None \<and> P \<union> set (valid_fingerprints fpf [r]) = {})
         \<or> (\<exists>u. uuid' = Some u \<and> u \<noteq> [] \<and> owned_by w' (P \<union> set (valid_fingerprints fpf [r])) u))"
      proof (cases "u = s")
        case True
        with u Some Inr step have w': "w' = w" and u': "uuid' = Some s"
          by (auto simp: load_identity_stored)
        have "owned_by w' (P \<union> set (valid_fingerprints fpf [r])) s"
          using u True Some Inr unfolding w' owned_by_def by auto
        with sound s_ne show ?thesis
          unfolding w' u' by blast
      next
        case False
        with u Some Inr step unlocked
        have w': "w' = merge (logger_info w (''Merging '' @ u @ '' and '' @ s)) [u] s"
          and u': "uuid' = Some s"
          by (auto simp: load_identity_stored)
        have "sound_registry w'"
          using sound s_ne unfolding w' sound_registry_def
          by (auto split: option.splits)
        moreover have "owned_by w' (P \<union> set (valid_fingerprints fpf [r])) s"
          using u Some Inr unfolding w' owned_by_def by auto
        ultimately show ?thesis using u' s_ne by auto
      qed
    qed
  qed
qed

lemma load_identities_from_working:
  assumes "nonempty_fingerprints fpf"
    and "sound_registry w"
    and "working w uuid P"
    and "load_identities_from fpf ids (w, uuid, n) = (Inr (uuid', n'), w')"
  shows "sound_registry w' \<and> working w' uuid' (P \<union> set (valid_fingerprints fpf ids))"
  using assms(2-)
proof (induction ids arbitrary: w uuid n P)
  case Nil
  then show ?case by simp
next
  case (Cons r ids)
  obtain w1 uuid1 n1 where step: "load_identity fpf r (w, uuid, n) = Inr (w1, uuid1, n1)"
    using load_identity_total [of fpf r w uuid n] by blast
  from load_identity_working [OF assms(1) Cons.prems(1,2) step]
  have s1: "sound_registry w1" and k1: "working w1 uuid1 (P \<union> set (valid_fingerprints fpf [r]))"
    by simp_all
  from Cons.prems(3) step have rest: "load_identities_from fpf ids (w1, uuid1, n1) = (Inr (uuid', n'), w')"
    by simp
  from Cons.IH [OF s1 k1 rest]
  have "sound_registry w'"
    and "working w' uuid' (P \<union> set (valid_fingerprints fpf [r]) \<union> set (valid_fingerprints fpf ids))"
    by simp_all
  then show ?case
    unfolding valid_fingerprints_Cons [of fpf r ids] by (simp add: Un_assoc)
qed

lemma load_identities_from_keeps_together:
  assumes "load_identities_from fpf ids (w, uuid, n) = (Inr (uuid', n'), w')"
  shows "keeps_together w w'"
  using assms
proof (induction ids arbitrary: w uuid n)
  case Nil
  then show ?case by (simp add: keeps_together_refl)
next
  case (Cons r ids)
  obtain w1 uuid1 n1 where step: "load_identity fpf r (w, uuid, n) = Inr (w1, uuid1, n1)"
    using load_identity_total [of fpf r w uuid n] by blast
  from Cons.prems step have rest: "load_identities_from fpf ids (w1, uuid1, n1) = (Inr (uuid', n'), w')"
    by simp
  from load_identity_keeps_together [OF step] Cons.IH [OF rest]
  show ?case by (rule keeps_together_trans)
qed

lemma working_together:
  "working w uuid (set fps) \<Longrightarrow> together w fps"
  by (auto simp: working_def together_def owned_by_def)

text \<open>
  Where all the fingerprints of the list are stored under one individual, the loop
  creates nothing and changes no owner.
\<close>

lemma load_identities_from_stored:
  assumes "owned_by w (set (valid_fingerprints fpf ids)) m"
    and "uuid = None \<or> uuid = Some m"
  shows "\<exists>uuid' w'. load_identities_from fpf ids (w, uuid, n) = (Inr (uuid', n), w')
           \<and> identity_owner w' = identity_owner w \<and> is_locked w' = is_locked w
           \<and> merge_calls w' = merge_calls w"
  using assms
proof (induction ids arbitrary: w uuid)
  case Nil
  then show ?case by simp
next
  case (Cons r ids)
  show ?case
  proof (cases "fpf r")
    case (Inl e)
    let ?w1 = "logger_warning w (str_of_error e)"
    have "owned_by ?w1 (set (valid_fingerprints fpf ids)) m"
      using Cons.prems(1) Inl by (simp add: owned_by_def)
    from Cons.IH [OF this Cons.prems(2)] Inl show ?thesis
      by (auto simp: load_identity_invalid)
  next
    case (Inr fp)
    then have own: "identity_owner w fp = Some m"
      and rest: "owned_by w (set (valid_fingerprints fpf ids)) m"
      using Cons.prems(1) by (auto simp: owned_by_def)
    have "uuid_or uuid m = m"
      using Cons.prems(2) by (auto simp: uuid_or_def)
    then have step: "load_identity fpf r (w, uuid, n) = Inr (w, Some m, n)"
      using Inr own by (simp add: load_identity_stored)
    from Cons.IH [OF rest, of "Some m"] step show ?thesis
      by auto
  qed
qed

lemma together_cong:
  "identity_owner w' = identity_owner w \<Longrightarrow> together w' fps = together w fps"
  by (simp add: together_def owned_by_def)

lemma sound_registry_cong:
  "identity_owner w' = identity_owner w \<Longrightarrow> is_locked w' = is_locked w
     \<Longrightarrow> sound_registry w' = sound_registry w"
  by (simp add: sound_registry_def)

lemma load_enrollments_if_accepts:
  assumes "\<forall>e\<in>set es. max lo (start_date e) \<le> min hi (end_date e)"
  shows "\<exists>w'. load_enrollments_if lo hi es uuid w = (Inr (), w')
           \<and> identity_owner w' = identity_owner w \<and> is_locked w' = is_locked w"
  by (auto simp: load_enrollments_if_def load_enrollments_accepts [OF assms] split: option.splits)

lemma periods_ordered_Cons:
  "periods_ordered lo hi (c # cs) \<longleftrightarrow>
     (\<forall>e\<in>set (enrollments c). max lo (start_date e) \<le> min hi (end_date e))
     \<and> periods_ordered lo hi cs"
  by (simp add: periods_ordered_def)

lemma all_fingerprints_Cons:
  "set (all_fingerprints fpf (c # cs)) =
     set (valid_fingerprints fpf (identities c)) \<union> set (all_fingerprints fpf cs)"
  by (simp add: all_fingerprints_def)

lemma load_from_first_run:
  assumes "nonempty_fingerprints fpf"
    and "periods_ordered lo hi cs"
    and "sound_registry w"
  shows "\<exists>w'. load_from fpf lo hi cs w ntotal
              = (Inr (ntotal + card (set (all_fingerprints fpf cs) - dom (identity_owner w))), w')
           \<and> sound_registry w' \<and> keeps_together w w'
           \<and> dom (identity_owner w') = dom (identity_owner w) \<union> set (all_fingerprints fpf cs)
           \<and> (\<forall>c\<in>set cs. together w' (valid_fingerprints fpf (identities c)))"
  using assms(2,3)
proof (induction cs arbitrary: w ntotal)
  case Nil
  then show ?case by (simp add: all_fingerprints_def keeps_together_refl)
next
  case (Cons c cs)
  let ?A = "set (valid_fingerprints fpf (identities c))"
  let ?B = "set (all_fingerprints fpf cs)"
  let ?D = "dom (identity_owner w)"
  from Cons.prems(1) have enr: "\<forall>e\<in>set (enrollments c). max lo (start_date e) \<le> min hi (end_date e)"
    and ord: "periods_ordered lo hi cs"
    by (simp_all add: periods_ordered_Cons)
  obtain uuid n w1 where ids: "load_identities_from fpf (identities c) (w, None, 0) = (Inr (uuid, n), w1)"
    using load_identities_from_total [of fpf "identities c" w None 0] by blast
  from load_identities_from_dom_count [OF ids]
  have d1: "dom (identity_owner w1) = ?D \<union> ?A" and c1: "n = card (?A - ?D)"
    by simp_all
  have "working w None {}" by (simp add: working_def)
  from load_identities_from_working [OF assms(1) Cons.prems(2) this ids]
  have s1: "sound_registry w1"
    and wk: "working w1 uuid (set (valid_fingerprints fpf (identities c)))"
    by simp_all
  have t1: "together w1 (valid_fingerprints fpf (identities c))"
    using wk by (rule working_together)
  have k1: "keeps_together w w1"
    using ids by (rule load_identities_from_keeps_together)
  obtain w2 where e2: "load_enrollments_if lo hi (enrollments c) uuid w1 = (Inr (), w2)"
    and o2: "identity_owner w2 = identity_owner w1" and l2: "is_locked w2 = is_locked w1"
    using load_enrollments_if_accepts [OF enr, of uuid w1] by blast
  have s2: "sound_registry w2"
    using s1 by (simp add: sound_registry_cong [OF o2 l2])
  from Cons.IH [OF ord s2, of "ntotal + n"] obtain w'
    where run: "load_from fpf lo hi cs w2 (ntotal + n)
                  = (Inr (ntotal + n + card (?B - dom (identity_owner w2))), w')"
      and s': "sound_registry w'" and k': "keeps_together w2 w'"
      and d': "dom (identity_owner w') = dom (identity_owner w2) \<union> ?B"
      and t': "\<forall>c\<in>set cs. together w' (valid_fingerprints fpf (identities c))"
    by blast
  have k2: "keeps_together w1 w2"
    using o2 by (rule keeps_together_same)
  have kk: "keeps_together w w'"
    using k1 k2 k' by (blast intro: keeps_together_trans)
  have tc: "together w' (valid_fingerprints fpf (identities c))"
    using t1 k2 k' by (blast intro: together_kept keeps_together_trans)
  have "card (?A - ?D) + card (?B - (?D \<union> ?A)) = card ((?A \<union> ?B) - ?D)"
    by (rule card_diff_split) simp_all
  then have cnt: "ntotal + n + card (?B - dom (identity_owner w2))
                  = ntotal + card (set (all_fingerprints fpf (c # cs)) - ?D)"
    unfolding all_fingerprints_Cons o2 d1 c1 by simp
  have dom: "dom (identity_owner w') = ?D \<union> set (all_fingerprints fpf (c # cs))"
    unfolding all_fingerprints_Cons d' o2 d1 by auto
  have "load_from fpf lo hi (c # cs) w ntotal
          = (Inr (ntotal + card (set (all_fingerprints fpf (c # cs)) - ?D)), w')"
    using ids e2 run cnt by (simp add: load_identities_def)
  with s' kk dom tc t' show ?case by auto
qed

lemma load_from_second_run:
  assumes "periods_ordered lo hi cs"
    and "\<forall>c\<in>set cs. together w (valid_fingerprints fpf (identities c))"
  shows "\<exists>w'. load_from fpf lo hi cs w ntotal = (Inr ntotal, w')
           \<and> identity_owner w' = identity_owner w \<and> is_locked w' = is_locked w"
  using assms
proof (induction cs arbitrary: w)
  case Nil
  then show ?case by simp
next
  case (Cons c cs)
  from Cons.prems(1) have enr: "\<forall>e\<in>set (enrollments c). max lo (start_date e) \<le> min hi (end_date e)"
    and ord: "periods_ordered lo hi cs"
    by (simp_all add: periods_ordered_Cons)
  from Cons.prems(2) obtain m where m: "owned_by w (set (valid_fingerprints fpf (identities c))) m"
    by (auto simp: together_def)
  from load_identities_from_stored [OF m, of None 0] obtain uuid w1
    where ids: "load_identities_from fpf (identities c) (w, None, 0) = (Inr (uuid, 0), w1)"
      and o1: "identity_owner w1 = identity_owner w" and l1: "is_locked w1 = is_locked w"
    by auto
  obtain w2 where e2: "load_enrollments_if lo hi (enrollments c) uuid w1 = (Inr (), w2)"
    and o2: "identity_owner w2 = identity_owner w1" and l2: "is_locked w2 = is_locked w1"
    using load_enrollments_if_accepts [OF enr, of uuid w1] by blast
  have o: "identity_owner w2 = identity_owner w" using o1 o2 by simp
  have "\<forall>c\<in>set cs. together w2 (valid_fingerprints fpf (identities c))"
    using Cons.prems(2) by (simp add: together_cong [OF o])
  from Cons.IH [OF ord this] obtain w'
    where run: "load_from fpf lo hi cs w2 ntotal = (Inr ntotal, w')"
      and o': "identity_owner w' = identity_owner w2" and l': "is_locked w' = is_locked w2"
    by blast
  have "load_from fpf lo hi (c # cs) w ntotal = (Inr ntotal, w')"
    using ids e2 run by (simp add: load_identities_def)
  with o o' l1 l2 l' show ?case by simp
qed

lemma generate_uuid_nonempty:
  assumes "generate_uuid U a b c d = Inr x"
  shows "x \<noteq> []"
proof -
  from assms obtain s where "x = sha1_hexdigest s"
    by (auto simp: generate_uuid_def split: if_splits option.splits)
  then have "length x = 40" by (simp add: length_sha1_hexdigest)
  then show ?thesis by auto
qed

lemma identity_fingerprint_nonempty: "nonempty_fingerprints (identity_fingerprint U)"
  by (auto simp: nonempty_fingerprints_def identity_fingerprint_def generate_uuid_nonempty)

lemma sound_empty_world: "sound_registry empty_world"
  by (simp add: sound_registry_def empty_world_def)

text \<open>
  Claim C5, as amended. For individuals none of whose enrollments is rejected (every
  clamped period is ordered), importing them twice, starting from the empty registry:
  the first run returns the number of distinct fingerprints among their valid
  identities, the second run returns 0, and after the second run every identity has the
  owner it had after the first, so the individuals are the same.
\<close>

theorem import_twice:
  assumes "periods_ordered lo hi cs"
  shows "fst (load (identity_fingerprint U) lo hi cs empty_world)
           = Inr (length (remdups (all_fingerprints (identity_fingerprint U) cs)))
         \<and> fst (load (identity_fingerprint U) lo hi cs
                  (snd (load (identity_fingerprint U) lo hi cs empty_world))) = Inr 0
         \<and> identity_owner (snd (load (identity_fingerprint U) lo hi cs
                  (snd (load (identity_fingerprint U) lo hi cs empty_world))))
             = identity_owner (snd (load (identity_fingerprint U) lo hi cs empty_world))"
proof -
  let ?F = "identity_fingerprint U"
  let ?w0 = "logger_info empty_world ''Loading individuals''"
  have s0: "sound_registry ?w0"
    using sound_empty_world by (simp add: sound_registry_def)
  from load_from_first_run [OF identity_fingerprint_nonempty assms s0, of U 0] obtain w1
    where run1: "load_from ?F lo hi cs ?w0 0
                   = (Inr (0 + card (set (all_fingerprints ?F cs) - dom (identity_owner ?w0))), w1)"
      and t1: "\<forall>c\<in>set cs. together w1 (valid_fingerprints ?F (identities c))"
    by blast
  have "dom (identity_owner ?w0) = {}" by (simp add: empty_world_def)
  with run1 have run1': "load_from ?F lo hi cs ?w0 0 = (Inr (length (remdups (all_fingerprints ?F cs))), w1)"
    by (simp add: card_set)
  let ?w1 = "logger_info w1 ''Individuals loaded''"
  have first: "load ?F lo hi cs empty_world = (Inr (length (remdups (all_fingerprints ?F cs))), ?w1)"
    using run1' by (simp add: load_def)
  let ?w2 = "logger_info ?w1 ''Loading individuals''"
  have "\<forall>c\<in>set cs. together ?w2 (valid_fingerprints ?F (identities c))"
    using t1 by (simp add: together_def owned_by_def)
  from load_from_second_run [OF assms this, of 0] obtain w3
    where run2: "load_from ?F lo hi cs ?w2 0 = (Inr 0, w3)"
      and o3: "identity_owner w3 = identity_owner ?w2"
    by blast
  have second: "load ?F lo hi cs ?w1 = (Inr 0, logger_info w3 ''Individuals loaded'')"
    using run2 by (simp add: load_def)
  show ?thesis
    unfolding first by (simp add: second o3)
qed

theorem import_twice_witness:
  "periods_ordered 100 200
     [\<lparr>identities = [id_a, id_nosource], enrollments = [early_period]\<rparr>,
      \<lparr>identities = [id_b, id_a], enrollments = []\<rparr>]
   \<and> fst (load (identity_fingerprint ucd_excerpt) 100 200
        [\<lparr>identities = [id_a, id_nosource], enrollments = [early_period]\<rparr>,
         \<lparr>identities = [id_b, id_a], enrollments = []\<rparr>] empty_world) = Inr 2
   \<and> identity_owner (snd (load (identity_fingerprint ucd_excerpt) 100 200
        [\<lparr>identities = [id_a, id_nosource], enrollments = [early_period]\<rparr>,
         \<lparr>identities = [id_b, id_a], enrollments = []\<rparr>] empty_world)) fp_b = Some fp_a
   \<and> fst (load (identity_fingerprint ucd_excerpt) 100 200
        [\<lparr>identities = [id_a, id_nosource], enrollments = [early_period]\<rparr>,
         \<lparr>identities = [id_b, id_a], enrollments = []\<rparr>]
        (snd (load (identity_fingerprint ucd_excerpt) 100 200
          [\<lparr>identities = [id_a, id_nosource], enrollments = [early_period]\<rparr>,
           \<lparr>identities = [id_b, id_a], enrollments = []\<rparr>] empty_world))) = Inr 0"
proof -
  let ?cs = "[\<lparr>identities = [id_a, id_nosource], enrollments = [early_period]\<rparr>,
              \<lparr>identities = [id_b, id_a], enrollments = []\<rparr>]"
  have ord: "periods_ordered 100 200 ?cs"
    by (simp add: periods_ordered_def early_period_def)
  have n: "length (remdups (all_fingerprints (identity_fingerprint ucd_excerpt) ?cs)) = 2"
    by (simp add: all_fingerprints_def fingerprint_examples)
  have o: "identity_owner (snd (load (identity_fingerprint ucd_excerpt) 100 200 ?cs empty_world)) fp_b
             = Some fp_a"
    by (simp add: load_eval early_period_def)
  from import_twice [OF ord, of ucd_excerpt] ord n o show ?thesis
    by simp
qed

text \<open>
  The claim as stated fails where an enrollment is rejected: the first run raises
  \<open>LoadError\<close> and returns no total, though the one valid identity has been created.
\<close>

theorem import_raises_counterexample:
  "length (remdups (all_fingerprints (identity_fingerprint ucd_excerpt)
      [\<lparr>identities = [id_a], enrollments = [bad_period]\<rparr>])) = 1
   \<and> fst (load (identity_fingerprint ucd_excerpt) 0 10
        [\<lparr>identities = [id_a], enrollments = [bad_period]\<rparr>] empty_world)
       = Inl (LoadError ''start date cannot be greater than end date'')"
  by (simp add: all_fingerprints_def load_eval bad_period_def)

text \<open>
  Two raw identities that differ in letter case only have one fingerprint and count
  once.
\<close>

lemma case_variants_created_once:
  "id_a \<noteq> id_a_upper
   \<and> fst (load (identity_fingerprint ucd_excerpt) 0 10
        [\<lparr>identities = [id_a, id_a_upper], enrollments = []\<rparr>] empty_world) = Inr 1"
proof -
  have "id_a \<noteq> id_a_upper"
    by (simp add: id_a_def id_a_upper_def ustr_of_def)
  moreover have "fst (load (identity_fingerprint ucd_excerpt) 0 10
        [\<lparr>identities = [id_a, id_a_upper], enrollments = []\<rparr>] empty_world) = Inr 1"
    by (simp add: load_eval fingerprint_id_a_upper)
  ultimately show ?thesis by simp
qed

section \<open>Further properties of the importer\<close>

text \<open>
  Loading the same enrollments a second time succeeds and changes nothing: the
  organization and the enrollment exist, and both \<open>AlreadyExistsError\<close>s are passed
  over.
\<close>

theorem enrollments_twice:
  assumes "\<forall>e\<in>set es. max lo (start_date e) \<le> min hi (end_date e)"
  shows "load_enrollments lo hi es u (snd (load_enrollments lo hi es u w))
           = (Inr (), snd (load_enrollments lo hi es u w))"
  by (simp add: load_enrollments_accepts [OF assms] Un_assoc)

theorem enrollments_twice_witness:
  "max 100 (start_date early_period) \<le> min 200 (end_date early_period)
   \<and> fst (load_enrollments 100 200 [early_period] fp_a
        (snd (load_enrollments 100 200 [early_period] fp_a empty_world))) = Inr ()
   \<and> enrolled (snd (load_enrollments 100 200 [early_period] fp_a
        (snd (load_enrollments 100 200 [early_period] fp_a empty_world))))
      = {(fp_a, ''Example'', 100, 150)}"
proof -
  have ok: "\<forall>e\<in>set [early_period]. max 100 (start_date e) \<le> min 200 (end_date e)"
    by (simp add: early_period_def)
  have first: "enrolled (snd (load_enrollments 100 200 [early_period] fp_a empty_world))
                 = {(fp_a, ''Example'', 100, 150)}"
    by (simp add: early_period_def empty_world_def ensure_organization_total enroll_def)
  from enrollments_twice [OF ok, of fp_a empty_world] ok first
  show ?thesis by simp
qed

text \<open>
  An identity with an empty source is skipped with a warning; the valid one after it is
  created, and its individual is returned.
\<close>

theorem invalid_identity_skipped:
  "fst (load_identities (identity_fingerprint ucd_excerpt) [id_nosource, id_a] empty_world)
     = Inr (Some fp_a, 1)
   \<and> identity_owner (snd (load_identities (identity_fingerprint ucd_excerpt)
        [id_nosource, id_a] empty_world)) fp_a = Some fp_a
   \<and> log_lines (snd (load_identities (identity_fingerprint ucd_excerpt)
        [id_nosource, id_a] empty_world))
      = [(WARNING, quoted ''source'' @ '' cannot be an empty string'')]"
  by (simp add: load_eval)

end
